theory Spec2Isabelle
  imports Main "HOL-Library.Sublist"
begin

section \<open>Strings and paths\<close>

text \<open>
  Go strings and byte slices are byte sequences; a \<^typ>\<open>char\<close> is one byte. A nil byte
  slice and an empty one are both the empty list.
\<close>

type_synonym byte = char

text \<open>\<^verbatim>\<open>strings.Trim(prefix, "/")\<close>: all leading and trailing slashes are cut.\<close>

definition cleanPrefix :: "string \<Rightarrow> string" where
  "cleanPrefix pfx =
     rev (dropWhile (\<lambda>c. c = CHR ''/'') (rev (dropWhile (\<lambda>c. c = CHR ''/'') pfx)))"

text \<open>
  \<^verbatim>\<open>strings.Replace(s, old, new, 1)\<close>: the leftmost occurrence of \<open>old\<close> is replaced
  (an empty \<open>old\<close> matches at the start of \<open>s\<close>).
\<close>

fun strings_Replace1 :: "string \<Rightarrow> string \<Rightarrow> string \<Rightarrow> string" where
  "strings_Replace1 [] old new = (if old = [] then new else [])"
| "strings_Replace1 (c # cs) old new =
     (if prefix old (c # cs) then new @ drop (length old) (c # cs)
      else c # strings_Replace1 cs old new)"

definition removePrefixFromObjectPath :: "string \<Rightarrow> string \<Rightarrow> string" where
  "removePrefixFromObjectPath pfx path =
     (if pfx = [] then path
      else strings_Replace1 path (pfx @ ''/'') [])"

subsection \<open>The standard library's \<^verbatim>\<open>path.Join\<close>\<close>

text \<open>
  \<^verbatim>\<open>path.Join\<close> drops the leading empty elements, glues the rest with slashes and cleans
  the result; \<^verbatim>\<open>path.Clean\<close> works element by element: empty elements and \<open>.\<close> vanish,
  \<open>..\<close> removes the element before it when there is one that is not itself \<open>..\<close>, is
  kept at the front of a relative path and dropped at the front of a rooted one. The
  result of cleaning is never empty: it is \<open>.\<close> when nothing is left.
\<close>

fun split_on :: "char \<Rightarrow> string \<Rightarrow> string list" where
  "split_on sep [] = [Nil]"
| "split_on sep (c # cs) =
     (if c = sep then [] # split_on sep cs
      else (case split_on sep cs of
              [] \<Rightarrow> [c # Nil]
            | w # ws \<Rightarrow> (c # w) # ws))"

fun join_with :: "string \<Rightarrow> string list \<Rightarrow> string" where
  "join_with sep [] = []"
| "join_with sep [e] = e"
| "join_with sep (e # es) = e @ sep @ join_with sep es"

definition clean_elem :: "bool \<Rightarrow> string list \<Rightarrow> string \<Rightarrow> string list" where
  "clean_elem rooted out e =
     (if e = [] \<or> e = ''.'' then out
      else if e = ''..'' then
        (if out \<noteq> [] \<and> last out \<noteq> ''..'' then butlast out
         else if \<not> rooted then out @ [''..'']
         else out)
      else out @ [e])"

definition path_Clean :: "string \<Rightarrow> string" where
  "path_Clean p =
     (if p = [] then ''.''
      else
        let rooted = (hd p = CHR ''/'');
            out = join_with ''/'' (foldl (clean_elem rooted) [] (split_on CHR ''/'' p))
        in if rooted then CHR ''/'' # out
           else if out = [] then ''.''
           else out)"

fun path_Join :: "string list \<Rightarrow> string" where
  "path_Join [] = []"
| "path_Join (e # es) =
     (if e = [] then path_Join es else path_Clean (join_with ''/'' (e # es)))"

subsection \<open>Substring search of the S3 adapter\<close>

text \<open>
  The loop \<^verbatim>\<open>for i := 0; i <= len(s)-len(substr); i++\<close> of \<^verbatim>\<open>containsSubstring\<close>, entered
  at index \<open>i\<close>. The slice \<^verbatim>\<open>s[i:i+len(substr)]\<close> is in range under the loop condition.
\<close>

function containsSubstring_from :: "int \<Rightarrow> string \<Rightarrow> string \<Rightarrow> bool" where
  "containsSubstring_from i s substr =
     (if i \<le> int (length s) - int (length substr) then
        (if take (length substr) (drop (nat i) s) = substr then True
         else containsSubstring_from (i + 1) s substr)
      else False)"
  by pat_completeness auto
termination
  by (relation "measure (\<lambda>(i, s, substr). nat (int (length s) - int (length substr) - i + 1))")
     auto

declare containsSubstring_from.simps [simp del]

definition containsSubstring :: "string \<Rightarrow> string \<Rightarrow> bool" where
  "containsSubstring s substr = containsSubstring_from 0 s substr"

definition contains :: "string \<Rightarrow> string \<Rightarrow> bool" where
  "contains s substr =
     (length s \<ge> length substr \<and> (s = substr \<or> length s > 0 \<and> containsSubstring s substr))"


subsection \<open>The standard library's \<^verbatim>\<open>url.PathEscape\<close>\<close>

text \<open>
  Letters, digits and the marks \<open>- _ . ~ $ & + = : @\<close> stay; every other byte becomes
  \<open>%XX\<close> in upper-case hexadecimal.
\<close>

definition shouldEscape :: "char \<Rightarrow> bool" where
  "shouldEscape c =
     (let n = (of_char c :: nat) in
      \<not> ((97 \<le> n \<and> n \<le> 122) \<or> (65 \<le> n \<and> n \<le> 90) \<or> (48 \<le> n \<and> n \<le> 57)
         \<or> c \<in> set ''-_.~$&+=:@''))"

fun url_PathEscape :: "string \<Rightarrow> string" where
  "url_PathEscape [] = []"
| "url_PathEscape (c # cs) =
     (if shouldEscape c then
        CHR ''%'' # (''0123456789ABCDEF'' ! ((of_char c :: nat) div 16))
                 # (''0123456789ABCDEF'' ! ((of_char c :: nat) mod 16)) # url_PathEscape cs
      else c # url_PathEscape cs)"

section \<open>Objects and errors\<close>

text \<open>
  A Go \<^verbatim>\<open>error\<close> is known to the adapters by its text \<^verbatim>\<open>err.Error()\<close> only; a
  \<^verbatim>\<open>time.Time\<close> is a number whose zero value is \<open>0\<close>.
\<close>

type_synonym error = string
type_synonym time = int

datatype panic = NilPointerDereference | IndexOutOfRange

record Metadata =
  Name :: string
  Version :: string

record Object =
  Meta :: Metadata
  Path :: string
  Content :: "byte list"
  LastModified :: time

definition zero_Object :: Object where
  "zero_Object = \<lparr>Meta = \<lparr>Name = [], Version = []\<rparr>, Path = [], Content = [], LastModified = 0\<rparr>"

record CustomErr =
  errCode :: string
  errMessage :: string
  errFlag :: bool

record AppError =
  appCause :: error
  appCustom :: CustomErr
  httpCode :: nat

definition GetAppErr :: "error \<Rightarrow> CustomErr \<Rightarrow> nat \<Rightarrow> AppError" where
  "GetAppErr err custom code = \<lparr>appCause = err, appCustom = custom, httpCode = code\<rparr>"

definition SetHTTPCode :: "nat \<Rightarrow> AppError \<Rightarrow> AppError" where
  "SetHTTPCode code appErr = appErr\<lparr>httpCode := code\<rparr>"

definition StatusNotFound :: nat where
  "StatusNotFound = 404"

definition StatusInternalServerError :: nat where
  "StatusInternalServerError = 500"

definition GCSGetObjects :: CustomErr where
  "GCSGetObjects = \<lparr>errCode = ''ERR_OS_GCS_1001'',
     errMessage = ''error while getting objects from gcs bucket'', errFlag = False\<rparr>"

definition GCSGetObject :: CustomErr where
  "GCSGetObject = \<lparr>errCode = ''ERR_OS_GCS_1002'',
     errMessage = ''error while getting object from gcs bucket'', errFlag = False\<rparr>"

definition GCSPutObject :: CustomErr where
  "GCSPutObject = \<lparr>errCode = ''ERR_OS_GCS_1003'',
     errMessage = ''error while putting object to gcs bucket'', errFlag = False\<rparr>"

definition GCSDeleteObject :: CustomErr where
  "GCSDeleteObject = \<lparr>errCode = ''ERR_OS_GCS_1004'',
     errMessage = ''error while deleting object from gcs bucket'', errFlag = False\<rparr>"

definition GCSCopyObject :: CustomErr where
  "GCSCopyObject = \<lparr>errCode = ''ERR_OS_GCS_1005'',
     errMessage = ''error while copying object in gcs bucket'', errFlag = False\<rparr>"

definition S3GetObjects :: CustomErr where
  "S3GetObjects = \<lparr>errCode = ''ERR_OS_S3_2001'',
     errMessage = ''error while getting objects from s3 bucket'', errFlag = False\<rparr>"

definition S3GetObject :: CustomErr where
  "S3GetObject = \<lparr>errCode = ''ERR_OS_S3_2002'',
     errMessage = ''error while getting object from s3 bucket'', errFlag = False\<rparr>"

definition S3PutObject :: CustomErr where
  "S3PutObject = \<lparr>errCode = ''ERR_OS_S3_2003'',
     errMessage = ''error while putting object to s3 bucket'', errFlag = False\<rparr>"

definition S3DeleteObject :: CustomErr where
  "S3DeleteObject = \<lparr>errCode = ''ERR_OS_S3_2004'',
     errMessage = ''error while deleting object from s3 bucket'', errFlag = False\<rparr>"

definition S3CopyObject :: CustomErr where
  "S3CopyObject = \<lparr>errCode = ''ERR_OS_S3_2005'',
     errMessage = ''error while copying object in s3 bucket'', errFlag = False\<rparr>"

text \<open>The outcome of one pass through the body of a \<^verbatim>\<open>for\<close> loop.\<close>

datatype ('r, 'c) iteration = Return 'r | Continue 'c

section \<open>The S3 adapter\<close>

text \<open>
  The client and the uploader are interfaces, so any implementation may stand behind
  them. A call takes the provider's state and gives the new one; it returns a pointer and
  an error as Go does, the error being looked at first. Pointer fields that the adapter
  dereferences are options. A nil element of \<^verbatim>\<open>Contents\<close> fails at the same place as
  an element whose \<^verbatim>\<open>Key\<close> is nil and is not told apart from it. The results of
  deleting, copying and uploading are discarded by the adapter; only their error is kept.
\<close>

record ListObjectsInput =
  li_Bucket :: string
  li_Prefix :: string
  li_Marker :: "string option"

record S3Object =
  s3_Key :: "string option"
  s3_LastModified :: "time option"

record ListObjectsOutput =
  Contents :: "S3Object list"
  IsTruncated :: "bool option"

record GetObjectInput =
  gi_Bucket :: string
  gi_Key :: string

text \<open>\<open>Body\<close>: what \<^verbatim>\<open>io.ReadAll\<close> will get from the stream, if there is a stream.\<close>

record GetObjectOutput =
  Body :: "(error + byte list) option"
  go_LastModified :: "time option"

record DeleteObjectInput =
  di_Bucket :: string
  di_Key :: string

record CopyObjectInput =
  ci_Bucket :: string
  ci_CopySource :: string
  ci_Key :: string

record UploadInput =
  ui_Bucket :: string
  ui_Key :: string
  ui_Body :: "byte list"

record 's IS3Client =
  ListObjectsWithContext ::
    "ListObjectsInput \<Rightarrow> 's \<Rightarrow> (ListObjectsOutput option \<times> error option) \<times> 's"
  GetObjectWithContext ::
    "GetObjectInput \<Rightarrow> 's \<Rightarrow> (GetObjectOutput option \<times> error option) \<times> 's"
  DeleteObjectWithContext :: "DeleteObjectInput \<Rightarrow> 's \<Rightarrow> error option \<times> 's"
  CopyObjectWithContext :: "CopyObjectInput \<Rightarrow> 's \<Rightarrow> error option \<times> 's"

record 's IS3Uploader =
  UploadWithContext :: "UploadInput \<Rightarrow> 's \<Rightarrow> error option \<times> 's"

record 's S3Backend =
  Bucket :: string
  Client :: "'s IS3Client"
  Prefix :: string
  Uploader :: "'s IS3Uploader"

definition isS3NotFoundError :: "error option \<Rightarrow> bool" where
  "isS3NotFoundError err =
     (case err of
        None \<Rightarrow> False
      | Some errStr \<Rightarrow>
          contains errStr ''NoSuchKey'' \<or> contains errStr ''NotFound'' \<or> contains errStr ''404'')"

definition S3_GetObject ::
  "'s S3Backend \<Rightarrow> string \<Rightarrow> 's \<Rightarrow> (panic + Object \<times> AppError option) \<times> 's" where
  "S3_GetObject b path \<sigma> =
     (let object = zero_Object\<lparr>Path := path\<rparr>;
          s3Input = \<lparr>gi_Bucket = Bucket b, gi_Key = path_Join [Prefix b, path]\<rparr>
      in case GetObjectWithContext (Client b) s3Input \<sigma> of
           ((s3Result, Some err), \<sigma>') \<Rightarrow>
             (let appErr = GetAppErr err S3GetObject StatusInternalServerError;
                  appErr = (if isS3NotFoundError (Some err)
                            then SetHTTPCode StatusNotFound appErr else appErr)
              in (Inr (object, Some appErr), \<sigma>'))
         | ((None, None), \<sigma>') \<Rightarrow> (Inl NilPointerDereference, \<sigma>')
         | ((Some s3Result, None), \<sigma>') \<Rightarrow>
             (case Body s3Result of
                None \<Rightarrow> (Inl NilPointerDereference, \<sigma>')
              | Some (Inl err) \<Rightarrow>
                  (Inr (object, Some (GetAppErr err S3GetObject StatusInternalServerError)), \<sigma>')
              | Some (Inr content) \<Rightarrow>
                  (let object = object\<lparr>Content := content\<rparr>;
                       object = (case go_LastModified s3Result of
                                   None \<Rightarrow> object
                                 | Some t \<Rightarrow> object\<lparr>LastModified := t\<rparr>)
                   in (Inr (object, None), \<sigma>'))))"

text \<open>The \<^verbatim>\<open>range\<close> loop over one page: one Object is appended for each entry.\<close>

fun S3_append_Contents :: "string \<Rightarrow> S3Object list \<Rightarrow> Object list \<Rightarrow> panic + Object list" where
  "S3_append_Contents fullPrefix [] objects = Inr objects"
| "S3_append_Contents fullPrefix (obj # rest) objects =
     (case s3_Key obj of
        None \<Rightarrow> Inl NilPointerDereference
      | Some key \<Rightarrow>
          (case s3_LastModified obj of
             None \<Rightarrow> Inl NilPointerDereference
           | Some t \<Rightarrow>
               S3_append_Contents fullPrefix rest
                 (objects @ [\<lparr>Meta = \<lparr>Name = [], Version = []\<rparr>,
                              Path = removePrefixFromObjectPath fullPrefix key,
                              Content = [], LastModified = t\<rparr>])))"

text \<open>The body of the pagination loop of \<^verbatim>\<open>GetObjects\<close>.\<close>

definition S3_GetObjects_body ::
  "'s S3Backend \<Rightarrow> string \<Rightarrow> ListObjectsInput \<Rightarrow> Object list \<Rightarrow> 's \<Rightarrow>
     (panic + Object list \<times> AppError option, ListObjectsInput \<times> Object list) iteration \<times> 's" where
  "S3_GetObjects_body b fullPrefix s3Input objects \<sigma> =
     (case ListObjectsWithContext (Client b) s3Input \<sigma> of
        ((s3Result, Some err), \<sigma>') \<Rightarrow>
          (let appErr = GetAppErr err S3GetObjects StatusInternalServerError;
               appErr = (if isS3NotFoundError (Some err)
                         then SetHTTPCode StatusNotFound appErr else appErr)
           in (Return (Inr (objects, Some appErr)), \<sigma>'))
      | ((None, None), \<sigma>') \<Rightarrow> (Return (Inl NilPointerDereference), \<sigma>')
      | ((Some s3Result, None), \<sigma>') \<Rightarrow>
          (case S3_append_Contents fullPrefix (Contents s3Result) objects of
             Inl p \<Rightarrow> (Return (Inl p), \<sigma>')
           | Inr objects \<Rightarrow>
               if IsTruncated s3Result = None \<or> IsTruncated s3Result = Some False
               then (Return (Inr (objects, None)), \<sigma>')
               else if Contents s3Result = [] then (Return (Inl IndexOutOfRange), \<sigma>')
               else (Continue (s3Input\<lparr>li_Marker := s3_Key (last (Contents s3Result))\<rparr>,
                               objects), \<sigma>')))"

text \<open>The loop has no bound of its own: \<open>None\<close> stands for a run that never returns.\<close>

partial_function (option) S3_GetObjects_loop ::
  "'s S3Backend \<Rightarrow> string \<Rightarrow> ListObjectsInput \<Rightarrow> Object list \<Rightarrow> 's \<Rightarrow>
     ((panic + Object list \<times> AppError option) \<times> 's) option" where
  "S3_GetObjects_loop b fullPrefix s3Input objects \<sigma> =
     (case S3_GetObjects_body b fullPrefix s3Input objects \<sigma> of
        (Return r, \<sigma>') \<Rightarrow> Some (r, \<sigma>')
      | (Continue (s3Input', objects'), \<sigma>') \<Rightarrow>
          S3_GetObjects_loop b fullPrefix s3Input' objects' \<sigma>')"

definition S3_GetObjects ::
  "'s S3Backend \<Rightarrow> string \<Rightarrow> 's \<Rightarrow> ((panic + Object list \<times> AppError option) \<times> 's) option" where
  "S3_GetObjects b pfx \<sigma> =
     (let fullPrefix = path_Join [Prefix b, pfx];
          s3Input = \<lparr>li_Bucket = Bucket b, li_Prefix = fullPrefix, li_Marker = None\<rparr>
      in S3_GetObjects_loop b fullPrefix s3Input [] \<sigma>)"

definition S3_PutObject :: "'s S3Backend \<Rightarrow> string \<Rightarrow> byte list \<Rightarrow> 's \<Rightarrow> AppError option \<times> 's" where
  "S3_PutObject b path content \<sigma> =
     (let s3Input = \<lparr>ui_Bucket = Bucket b, ui_Key = path_Join [Prefix b, path],
                     ui_Body = content\<rparr>
      in case UploadWithContext (Uploader b) s3Input \<sigma> of
           (Some err, \<sigma>') \<Rightarrow> (Some (GetAppErr err S3PutObject StatusInternalServerError), \<sigma>')
         | (None, \<sigma>') \<Rightarrow> (None, \<sigma>'))"

definition S3_DeleteObject :: "'s S3Backend \<Rightarrow> string \<Rightarrow> 's \<Rightarrow> AppError option \<times> 's" where
  "S3_DeleteObject b path \<sigma> =
     (let s3Input = \<lparr>di_Bucket = Bucket b, di_Key = path_Join [Prefix b, path]\<rparr>
      in case DeleteObjectWithContext (Client b) s3Input \<sigma> of
           (Some err, \<sigma>') \<Rightarrow>
             (let appErr = GetAppErr err S3DeleteObject StatusInternalServerError;
                  appErr = (if isS3NotFoundError (Some err)
                            then SetHTTPCode StatusNotFound appErr else appErr)
              in (Some appErr, \<sigma>'))
         | (None, \<sigma>') \<Rightarrow> (None, \<sigma>'))"

definition S3_CopyObject :: "'s S3Backend \<Rightarrow> string \<Rightarrow> string \<Rightarrow> 's \<Rightarrow> AppError option \<times> 's" where
  "S3_CopyObject b srcPath dstPath \<sigma> =
     (let copySource = path_Join [Bucket b, Prefix b, srcPath];
          copyObjectInput = \<lparr>ci_Bucket = Bucket b, ci_CopySource = url_PathEscape copySource,
                             ci_Key = path_Join [Prefix b, dstPath]\<rparr>
      in case CopyObjectWithContext (Client b) copyObjectInput \<sigma> of
           (Some err, \<sigma>') \<Rightarrow>
             (let appErr = GetAppErr err S3CopyObject StatusInternalServerError;
                  appErr = (if isS3NotFoundError (Some err)
                            then SetHTTPCode StatusNotFound appErr else appErr)
              in (Some appErr, \<sigma>'))
         | (None, \<sigma>') \<Rightarrow> (None, \<sigma>'))"


section \<open>The Cloud Storage adapter\<close>

text \<open>
  \<^verbatim>\<open>Object(name)\<close> and \<^verbatim>\<open>Objects(ctx, q)\<close> give handles of the SDK's own types; the
  calls made through such a handle are the calls of the client here, the object handle
  being its name and a writer being known by the name of its object. A reader is what \<^verbatim>\<open>io.ReadAll\<close> and \<^verbatim>\<open>Close\<close> will give; the
  position of the open iterator belongs to the provider's state.
\<close>

record ObjectAttrs =
  attrs_Name :: string
  attrs_Updated :: time

record Reader =
  rd_ReadAll :: "error + byte list"
  rd_Close :: "error option"

record Query =
  q_Prefix :: string

datatype iterator_Next = Done | Failed error | Attrs ObjectAttrs

record 's IGCSClient =
  Object_Attrs :: "string \<Rightarrow> 's \<Rightarrow> (error + ObjectAttrs) \<times> 's"
  Object_NewReader :: "string \<Rightarrow> 's \<Rightarrow> (error + Reader) \<times> 's"
  Object_NewWriter :: "string \<Rightarrow> 's \<Rightarrow> 's"
  Writer_Write :: "string \<Rightarrow> byte list \<Rightarrow> 's \<Rightarrow> error option \<times> 's"
  Writer_Close :: "string \<Rightarrow> 's \<Rightarrow> error option \<times> 's"
  Object_Delete :: "string \<Rightarrow> 's \<Rightarrow> error option \<times> 's"
  Copier_Run :: "string \<Rightarrow> string \<Rightarrow> 's \<Rightarrow> error option \<times> 's"
  Objects :: "Query \<Rightarrow> 's \<Rightarrow> 's"
  Iterator_Next :: "'s \<Rightarrow> iterator_Next \<times> 's"

record 's GoogleCSBackend =
  gcs_Prefix :: string
  gcs_Client :: "'s IGCSClient"

text \<open>The text of \<^verbatim>\<open>storage.ErrObjectNotExist\<close>.\<close>

definition ErrObjectNotExist :: error where
  "ErrObjectNotExist = ''storage: object doesn'' @ [char_of (39 :: nat)] @ ''t exist''"

definition GCS_GetObject :: "'s GoogleCSBackend \<Rightarrow> string \<Rightarrow> 's \<Rightarrow> (Object \<times> AppError option) \<times> 's" where
  "GCS_GetObject b path \<sigma> =
     (let object = zero_Object\<lparr>Path := path\<rparr>;
          objectHandle = path_Join [gcs_Prefix b, path]
      in case Object_Attrs (gcs_Client b) objectHandle \<sigma> of
           (Inl err, \<sigma>1) \<Rightarrow>
             (let appErr = GetAppErr err GCSGetObject StatusInternalServerError;
                  appErr = (if err = ErrObjectNotExist
                            then SetHTTPCode StatusNotFound appErr else appErr)
              in ((object, Some appErr), \<sigma>1))
         | (Inr attrs, \<sigma>1) \<Rightarrow>
             (let object = object\<lparr>LastModified := attrs_Updated attrs\<rparr>
              in case Object_NewReader (gcs_Client b) objectHandle \<sigma>1 of
                   (Inl err, \<sigma>2) \<Rightarrow>
                     ((object, Some (GetAppErr err GCSGetObject StatusInternalServerError)), \<sigma>2)
                 | (Inr rc, \<sigma>2) \<Rightarrow>
                     (case rd_ReadAll rc of
                        Inl err \<Rightarrow>
                          ((object, Some (GetAppErr (''failed to read from reader stream: '' @ err)
                                            GCSGetObject StatusInternalServerError)), \<sigma>2)
                      | Inr content \<Rightarrow>
                          (case rd_Close rc of
                             Some err \<Rightarrow>
                               ((object, Some (GetAppErr err GCSGetObject
                                                 StatusInternalServerError)), \<sigma>2)
                           | None \<Rightarrow> ((object\<lparr>Content := content\<rparr>, None), \<sigma>2)))))"

text \<open>The body of the iterator loop of \<^verbatim>\<open>GetObjects\<close>; \<open>pfx\<close> is the joined prefix.\<close>

definition GCS_GetObjects_body ::
  "'s GoogleCSBackend \<Rightarrow> string \<Rightarrow> Object list \<Rightarrow> 's \<Rightarrow>
     (Object list \<times> AppError option, Object list) iteration \<times> 's" where
  "GCS_GetObjects_body b pfx objects \<sigma> =
     (case Iterator_Next (gcs_Client b) \<sigma> of
        (Done, \<sigma>') \<Rightarrow> (Return (objects, None), \<sigma>')
      | (Failed err, \<sigma>') \<Rightarrow>
          (let appErr = GetAppErr err GCSGetObjects StatusInternalServerError;
               appErr = (if err = ErrObjectNotExist
                         then SetHTTPCode StatusNotFound appErr else appErr)
           in (Return (objects, Some appErr), \<sigma>'))
      | (Attrs attrs, \<sigma>') \<Rightarrow>
          (Continue (objects @ [\<lparr>Meta = \<lparr>Name = [], Version = []\<rparr>,
                                 Path = removePrefixFromObjectPath pfx (attrs_Name attrs),
                                 Content = [], LastModified = attrs_Updated attrs\<rparr>]), \<sigma>'))"

partial_function (option) GCS_GetObjects_loop ::
  "'s GoogleCSBackend \<Rightarrow> string \<Rightarrow> Object list \<Rightarrow> 's \<Rightarrow>
     ((Object list \<times> AppError option) \<times> 's) option" where
  "GCS_GetObjects_loop b pfx objects \<sigma> =
     (case GCS_GetObjects_body b pfx objects \<sigma> of
        (Return r, \<sigma>') \<Rightarrow> Some (r, \<sigma>')
      | (Continue objects', \<sigma>') \<Rightarrow> GCS_GetObjects_loop b pfx objects' \<sigma>')"

definition GCS_GetObjects ::
  "'s GoogleCSBackend \<Rightarrow> string \<Rightarrow> 's \<Rightarrow> ((Object list \<times> AppError option) \<times> 's) option" where
  "GCS_GetObjects b pfx \<sigma> =
     (let pfx = path_Join [gcs_Prefix b, pfx];
          listQuery = \<lparr>q_Prefix = pfx\<rparr>
      in GCS_GetObjects_loop b pfx [] (Objects (gcs_Client b) listQuery \<sigma>))"

definition GCS_PutObject :: "'s GoogleCSBackend \<Rightarrow> string \<Rightarrow> byte list \<Rightarrow> 's \<Rightarrow> AppError option \<times> 's" where
  "GCS_PutObject b path content \<sigma> =
     (let wc = path_Join [gcs_Prefix b, path];
          \<sigma>0 = Object_NewWriter (gcs_Client b) wc \<sigma>
      in case Writer_Write (gcs_Client b) wc content \<sigma>0 of
           (Some err, \<sigma>1) \<Rightarrow>
             (let appErr = GetAppErr err GCSPutObject StatusInternalServerError;
                  appErr = (if err = ErrObjectNotExist
                            then SetHTTPCode StatusNotFound appErr else appErr)
              in (Some appErr, \<sigma>1))
         | (None, \<sigma>1) \<Rightarrow>
             (case Writer_Close (gcs_Client b) wc \<sigma>1 of
                (Some err, \<sigma>2) \<Rightarrow>
                  (Some (GetAppErr err GCSPutObject StatusInternalServerError), \<sigma>2)
              | (None, \<sigma>2) \<Rightarrow> (None, \<sigma>2)))"

definition GCS_DeleteObject :: "'s GoogleCSBackend \<Rightarrow> string \<Rightarrow> 's \<Rightarrow> AppError option \<times> 's" where
  "GCS_DeleteObject b path \<sigma> =
     (case Object_Delete (gcs_Client b) (path_Join [gcs_Prefix b, path]) \<sigma> of
        (Some err, \<sigma>') \<Rightarrow>
          (let appErr = GetAppErr err GCSDeleteObject StatusInternalServerError;
               appErr = (if err = ErrObjectNotExist
                         then SetHTTPCode StatusNotFound appErr else appErr)
           in (Some appErr, \<sigma>'))
      | (None, \<sigma>') \<Rightarrow> (None, \<sigma>'))"

text \<open>\<^verbatim>\<open>dst.CopierFrom(src).Run(ctx)\<close>: the destination handle comes first.\<close>

definition GCS_CopyObject :: "'s GoogleCSBackend \<Rightarrow> string \<Rightarrow> string \<Rightarrow> 's \<Rightarrow> AppError option \<times> 's" where
  "GCS_CopyObject b srcPath dstPath \<sigma> =
     (let src = srcPath;
          dst = dstPath
      in case Copier_Run (gcs_Client b) dst src \<sigma> of
           (Some err, \<sigma>') \<Rightarrow>
             (let appErr = GetAppErr err GCSCopyObject StatusInternalServerError;
                  appErr = (if err = ErrObjectNotExist
                            then SetHTTPCode StatusNotFound appErr else appErr)
              in (Some appErr, \<sigma>'))
         | (None, \<sigma>') \<Rightarrow> (None, \<sigma>'))"


section \<open>Test doubles for the clients\<close>

subsection \<open>Scripted clients\<close>

text \<open>
  A scripted S3 client answers the list requests with the responses of a script, in
  order, and keeps the requests it received. Nothing else is expected of it.
\<close>

record S3_script =
  pending :: "(ListObjectsOutput option \<times> error option) list"
  received :: "ListObjectsInput list"

definition scripted_S3Client :: "S3_script IS3Client" where
  "scripted_S3Client =
     \<lparr>ListObjectsWithContext = (\<lambda>inp \<sigma>.
        (case pending \<sigma> of
           [] \<Rightarrow> ((None, Some ''script exhausted''), \<sigma>\<lparr>received := received \<sigma> @ [inp]\<rparr>)
         | r # rs \<Rightarrow> (r, \<lparr>pending = rs, received = received \<sigma> @ [inp]\<rparr>))),
      GetObjectWithContext = (\<lambda>inp \<sigma>. ((None, Some ''unexpected call''), \<sigma>)),
      DeleteObjectWithContext = (\<lambda>inp \<sigma>. (Some ''unexpected call'', \<sigma>)),
      CopyObjectWithContext = (\<lambda>inp \<sigma>. (Some ''unexpected call'', \<sigma>))\<rparr>"

definition scripted_S3Backend :: "string \<Rightarrow> string \<Rightarrow> S3_script S3Backend" where
  "scripted_S3Backend bucket pfx =
     \<lparr>Bucket = bucket, Client = scripted_S3Client, Prefix = pfx,
      Uploader = \<lparr>UploadWithContext = (\<lambda>inp \<sigma>. (Some ''unexpected call'', \<sigma>))\<rparr>\<rparr>"

text \<open>A scripted iterator gives the steps of a script and is done when the script is.\<close>

definition scripted_GCSClient :: "iterator_Next list IGCSClient" where
  "scripted_GCSClient =
     \<lparr>Object_Attrs = (\<lambda>name \<sigma>. (Inl ''unexpected call'', \<sigma>)),
      Object_NewReader = (\<lambda>name \<sigma>. (Inl ''unexpected call'', \<sigma>)),
      Object_NewWriter = (\<lambda>name \<sigma>. \<sigma>),
      Writer_Write = (\<lambda>name content \<sigma>. (Some ''unexpected call'', \<sigma>)),
      Writer_Close = (\<lambda>name \<sigma>. (Some ''unexpected call'', \<sigma>)),
      Object_Delete = (\<lambda>name \<sigma>. (Some ''unexpected call'', \<sigma>)),
      Copier_Run = (\<lambda>dst src \<sigma>. (Some ''unexpected call'', \<sigma>)),
      Objects = (\<lambda>q \<sigma>. \<sigma>),
      Iterator_Next = (\<lambda>\<sigma>. case \<sigma> of [] \<Rightarrow> (Done, []) | r # rs \<Rightarrow> (r, rs))\<rparr>"

definition scripted_GCSBackend :: "string \<Rightarrow> iterator_Next list GoogleCSBackend" where
  "scripted_GCSBackend pfx = \<lparr>gcs_Prefix = pfx, gcs_Client = scripted_GCSClient\<rparr>"

subsection \<open>Recording clients\<close>

text \<open>A recording client refuses every call with a given error and keeps what it was asked.\<close>

datatype S3_call =
    ListObjects ListObjectsInput
  | GetObject GetObjectInput
  | DeleteObject DeleteObjectInput
  | CopyObject CopyObjectInput
  | Upload UploadInput

definition recording_S3Backend :: "string \<Rightarrow> string \<Rightarrow> error \<Rightarrow> S3_call list S3Backend" where
  "recording_S3Backend bucket pfx err =
     \<lparr>Bucket = bucket,
      Client =
        \<lparr>ListObjectsWithContext = (\<lambda>inp \<sigma>. ((None, Some err), \<sigma> @ [ListObjects inp])),
         GetObjectWithContext = (\<lambda>inp \<sigma>. ((None, Some err), \<sigma> @ [GetObject inp])),
         DeleteObjectWithContext = (\<lambda>inp \<sigma>. (Some err, \<sigma> @ [DeleteObject inp])),
         CopyObjectWithContext = (\<lambda>inp \<sigma>. (Some err, \<sigma> @ [CopyObject inp]))\<rparr>,
      Prefix = pfx,
      Uploader = \<lparr>UploadWithContext = (\<lambda>inp \<sigma>. (Some err, \<sigma> @ [Upload inp]))\<rparr>\<rparr>"

datatype GCS_call =
    Call_Attrs string
  | Call_NewReader string
  | Call_NewWriter string
  | Call_Write string "byte list"
  | Call_Close string
  | Call_Delete string
  | Call_CopyFromTo string string
  | Call_Objects Query
  | Call_Next

definition recording_GCSBackend :: "string \<Rightarrow> error \<Rightarrow> GCS_call list GoogleCSBackend" where
  "recording_GCSBackend pfx err =
     \<lparr>gcs_Prefix = pfx,
      gcs_Client =
        \<lparr>Object_Attrs = (\<lambda>name \<sigma>. (Inl err, \<sigma> @ [Call_Attrs name])),
         Object_NewReader = (\<lambda>name \<sigma>. (Inl err, \<sigma> @ [Call_NewReader name])),
         Object_NewWriter = (\<lambda>name \<sigma>. \<sigma> @ [Call_NewWriter name]),
         Writer_Write = (\<lambda>name content \<sigma>. (Some err, \<sigma> @ [Call_Write name content])),
         Writer_Close = (\<lambda>name \<sigma>. (Some err, \<sigma> @ [Call_Close name])),
         Object_Delete = (\<lambda>name \<sigma>. (Some err, \<sigma> @ [Call_Delete name])),
         Copier_Run = (\<lambda>dst src \<sigma>. (Some err, \<sigma> @ [Call_CopyFromTo src dst])),
         Objects = (\<lambda>q \<sigma>. \<sigma> @ [Call_Objects q]),
         Iterator_Next = (\<lambda>\<sigma>. (Failed err, \<sigma> @ [Call_Next]))\<rparr>\<rparr>"

subsection \<open>Providers that are key-value maps\<close>

text \<open>
  One bucket as an association list from keys to contents and modification times. A put
  replaces the entry of its key and stamps it with the clock. Listing answers with one
  page of all the keys that start with the requested prefix.
\<close>

record S3_store =
  stored :: "(string \<times> byte list \<times> time) list"
  clock :: time

definition kv_S3Client :: "S3_store IS3Client" where
  "kv_S3Client =
     \<lparr>ListObjectsWithContext = (\<lambda>inp \<sigma>.
        ((Some \<lparr>Contents =
                  map (\<lambda>e. \<lparr>s3_Key = Some (fst e), s3_LastModified = Some (snd (snd e))\<rparr>)
                    (filter (\<lambda>e. prefix (li_Prefix inp) (fst e)) (stored \<sigma>)),
                IsTruncated = Some False\<rparr>, None), \<sigma>)),
      GetObjectWithContext = (\<lambda>inp \<sigma>.
        (case map_of (stored \<sigma>) (gi_Key inp) of
           None \<Rightarrow> ((None, Some ''NoSuchKey: The specified key does not exist.''), \<sigma>)
         | Some e \<Rightarrow> ((Some \<lparr>Body = Some (Inr (fst e)), go_LastModified = Some (snd e)\<rparr>, None), \<sigma>))),
      DeleteObjectWithContext = (\<lambda>inp \<sigma>.
        (None, \<sigma>\<lparr>stored := filter (\<lambda>e. fst e \<noteq> di_Key inp) (stored \<sigma>)\<rparr>)),
      CopyObjectWithContext = (\<lambda>inp \<sigma>.
        (case find (\<lambda>e. url_PathEscape (ci_Bucket inp @ ''/'' @ fst e) = ci_CopySource inp)
                (stored \<sigma>) of
           None \<Rightarrow> (Some ''NoSuchKey: The specified key does not exist.'', \<sigma>)
         | Some e \<Rightarrow>
             (None, \<lparr>stored = (ci_Key inp, fst (snd e), clock \<sigma>)
                                # filter (\<lambda>e. fst e \<noteq> ci_Key inp) (stored \<sigma>),
                     clock = clock \<sigma> + 1\<rparr>)))\<rparr>"

definition kv_S3Uploader :: "S3_store IS3Uploader" where
  "kv_S3Uploader =
     \<lparr>UploadWithContext = (\<lambda>inp \<sigma>.
        (None, \<lparr>stored = (ui_Key inp, ui_Body inp, clock \<sigma>)
                           # filter (\<lambda>e. fst e \<noteq> ui_Key inp) (stored \<sigma>),
                clock = clock \<sigma> + 1\<rparr>))\<rparr>"

definition kv_S3Backend :: "string \<Rightarrow> string \<Rightarrow> S3_store S3Backend" where
  "kv_S3Backend bucket pfx =
     \<lparr>Bucket = bucket, Client = kv_S3Client, Prefix = pfx, Uploader = kv_S3Uploader\<rparr>"

text \<open>
  The same for Cloud Storage: a new writer starts with an empty buffer, a write fills the
  buffer of the writer of that name, closing the writer commits the buffer, and opening an
  iterator loads the matching entries.
\<close>

record GCS_store =
  g_stored :: "(string \<times> byte list \<times> time) list"
  g_clock :: time
  g_writers :: "(string \<times> byte list) list"
  g_iterator :: "ObjectAttrs list"

definition kv_GCSClient :: "GCS_store IGCSClient" where
  "kv_GCSClient =
     \<lparr>Object_Attrs = (\<lambda>name \<sigma>.
        (case map_of (g_stored \<sigma>) name of
           None \<Rightarrow> (Inl ErrObjectNotExist, \<sigma>)
         | Some e \<Rightarrow> (Inr \<lparr>attrs_Name = name, attrs_Updated = snd e\<rparr>, \<sigma>))),
      Object_NewReader = (\<lambda>name \<sigma>.
        (case map_of (g_stored \<sigma>) name of
           None \<Rightarrow> (Inl ErrObjectNotExist, \<sigma>)
         | Some e \<Rightarrow> (Inr \<lparr>rd_ReadAll = Inr (fst e), rd_Close = None\<rparr>, \<sigma>))),
      Object_NewWriter = (\<lambda>name \<sigma>.
        \<sigma>\<lparr>g_writers := (name, []) # filter (\<lambda>w. fst w \<noteq> name) (g_writers \<sigma>)\<rparr>),
      Writer_Write = (\<lambda>name content \<sigma>.
        (None, \<sigma>\<lparr>g_writers :=
                  (name, (case map_of (g_writers \<sigma>) name of None \<Rightarrow> [] | Some buf \<Rightarrow> buf)
                         @ content)
                  # filter (\<lambda>w. fst w \<noteq> name) (g_writers \<sigma>)\<rparr>)),
      Writer_Close = (\<lambda>name \<sigma>.
        (None, \<sigma>\<lparr>g_stored :=
                  (name, (case map_of (g_writers \<sigma>) name of None \<Rightarrow> [] | Some buf \<Rightarrow> buf),
                   g_clock \<sigma>)
                  # filter (\<lambda>e. fst e \<noteq> name) (g_stored \<sigma>),
                g_clock := g_clock \<sigma> + 1,
                g_writers := filter (\<lambda>w. fst w \<noteq> name) (g_writers \<sigma>)\<rparr>)),
      Object_Delete = (\<lambda>name \<sigma>.
        (case map_of (g_stored \<sigma>) name of
           None \<Rightarrow> (Some ErrObjectNotExist, \<sigma>)
         | Some e \<Rightarrow> (None, \<sigma>\<lparr>g_stored := filter (\<lambda>e. fst e \<noteq> name) (g_stored \<sigma>)\<rparr>))),
      Copier_Run = (\<lambda>dst src \<sigma>.
        (case map_of (g_stored \<sigma>) src of
           None \<Rightarrow> (Some ErrObjectNotExist, \<sigma>)
         | Some e \<Rightarrow>
             (None, \<sigma>\<lparr>g_stored := (dst, fst e, g_clock \<sigma>)
                                    # filter (\<lambda>e. fst e \<noteq> dst) (g_stored \<sigma>),
                     g_clock := g_clock \<sigma> + 1\<rparr>))),
      Objects = (\<lambda>q \<sigma>.
        \<sigma>\<lparr>g_iterator :=
            map (\<lambda>e. \<lparr>attrs_Name = fst e, attrs_Updated = snd (snd e)\<rparr>)
              (filter (\<lambda>e. prefix (q_Prefix q) (fst e)) (g_stored \<sigma>))\<rparr>),
      Iterator_Next = (\<lambda>\<sigma>.
        (case g_iterator \<sigma> of
           [] \<Rightarrow> (Done, \<sigma>)
         | a # as \<Rightarrow> (Attrs a, \<sigma>\<lparr>g_iterator := as\<rparr>)))\<rparr>"

definition kv_GCSBackend :: "string \<Rightarrow> GCS_store GoogleCSBackend" where
  "kv_GCSBackend pfx = \<lparr>gcs_Prefix = pfx, gcs_Client = kv_GCSClient\<rparr>"


section \<open>Notions used in the statements\<close>

text \<open>
  The Objects that a listing derives from the entries of one page, when no pointer of an
  entry is nil, and the not-found rule of the S3 adapter in terms of the library's
  \<^const>\<open>sublist\<close>.
\<close>

definition entries_complete :: "S3Object list \<Rightarrow> bool" where
  "entries_complete cs = list_all (\<lambda>obj. s3_Key obj \<noteq> None \<and> s3_LastModified obj \<noteq> None) cs"

definition Objects_of_Contents :: "string \<Rightarrow> S3Object list \<Rightarrow> Object list" where
  "Objects_of_Contents fullPrefix cs =
     map (\<lambda>obj. \<lparr>Meta = \<lparr>Name = [], Version = []\<rparr>,
                  Path = removePrefixFromObjectPath fullPrefix (the (s3_Key obj)),
                  Content = [], LastModified = the (s3_LastModified obj)\<rparr>) cs"

definition Objects_of_Attrs :: "string \<Rightarrow> ObjectAttrs list \<Rightarrow> Object list" where
  "Objects_of_Attrs fullPrefix as =
     map (\<lambda>attrs. \<lparr>Meta = \<lparr>Name = [], Version = []\<rparr>,
                    Path = removePrefixFromObjectPath fullPrefix (attrs_Name attrs),
                    Content = [], LastModified = attrs_Updated attrs\<rparr>) as"

definition names_absence :: "error \<Rightarrow> bool" where
  "names_absence e = (sublist ''NoSuchKey'' e \<or> sublist ''NotFound'' e \<or> sublist ''404'' e)"

text \<open>
  The application error that the adapters make of a provider's error, and a page that
  makes the pagination loop of the S3 adapter go on.
\<close>

definition S3_classify :: "error \<Rightarrow> CustomErr \<Rightarrow> AppError" where
  "S3_classify e c =
     (if isS3NotFoundError (Some e)
      then SetHTTPCode StatusNotFound (GetAppErr e c StatusInternalServerError)
      else GetAppErr e c StatusInternalServerError)"

definition GCS_classify :: "error \<Rightarrow> CustomErr \<Rightarrow> AppError" where
  "GCS_classify e c =
     (if e = ErrObjectNotExist
      then SetHTTPCode StatusNotFound (GetAppErr e c StatusInternalServerError)
      else GetAppErr e c StatusInternalServerError)"

definition full_page :: "ListObjectsOutput \<Rightarrow> bool" where
  "full_page p =
     (IsTruncated p = Some True \<and> Contents p \<noteq> [] \<and> entries_complete (Contents p))"

text \<open>
  A response after which the marker can be taken: no truncated page without entries.
\<close>

definition safe_response :: "ListObjectsOutput option \<times> error option \<Rightarrow> bool" where
  "safe_response resp =
     (case resp of
        (Some out, None) \<Rightarrow> IsTruncated out = Some True \<longrightarrow> Contents out \<noteq> []
      | _ \<Rightarrow> True)"

text \<open>
  A relative path in clean form: its elements are not empty and are neither \<open>.\<close> nor
  \<open>..\<close>, so that joining leaves it as it is.
\<close>

definition plain_path :: "string \<Rightarrow> bool" where
  "plain_path s = list_all (\<lambda>e. e \<noteq> [] \<and> e \<noteq> ''.'' \<and> e \<noteq> ''..'') (split_on CHR ''/'' s)"

section \<open>Lemmas on strings and paths\<close>

lemma split_on_not_Nil: "split_on sep xs \<noteq> []"
  by (induction xs) (auto split: list.splits)

lemma split_on_append:
  "split_on sep (xs @ sep # ys) = split_on sep xs @ split_on sep ys"
proof (induction xs)
  case Nil
  show ?case by simp
next
  case (Cons c cs)
  obtain w ws where w: "split_on sep cs = w # ws"
    using split_on_not_Nil [of sep cs] by (cases "split_on sep cs") auto
  with Cons show ?case by simp
qed

lemma join_with_snoc:
  "join_with sep (xs @ [y]) = (if xs = [] then y else join_with sep xs @ sep @ y)"
  by (induction sep xs rule: join_with.induct) auto

lemma clean_elem_normal:
  "e \<noteq> [] \<Longrightarrow> e \<noteq> ''.'' \<Longrightarrow> e \<noteq> ''..'' \<Longrightarrow> clean_elem r out e = out @ [e]"
  by (simp add: clean_elem_def)

lemma clean_elem_empty: "clean_elem r out [] = out"
  by (simp add: clean_elem_def)

lemma split_test_hello: "split_on CHR ''/'' ''test/hello.txt'' = [''test'', ''hello.txt'']"
  by simp

lemma split_test_slash: "split_on CHR ''/'' ''test/'' = [''test'', []]"
  by simp

lemma clean_listing:
  "join_with ''/'' (foldl (clean_elem r) [] (split_on CHR ''/'' (P @ ''/test/hello.txt'')))
     = join_with ''/'' (foldl (clean_elem r) [] (split_on CHR ''/'' (P @ ''/test/''))) @ ''/hello.txt''
   \<and> join_with ''/'' (foldl (clean_elem r) [] (split_on CHR ''/'' (P @ ''/test/''))) \<noteq> []"
proof -
  define S where "S = foldl (clean_elem r) [] (split_on CHR ''/'' P)"
  have t: "clean_elem r S ''test'' = S @ [''test'']"
    by (rule clean_elem_normal) simp_all
  have h: "clean_elem r (S @ [''test'']) ''hello.txt'' = (S @ [''test'']) @ [''hello.txt'']"
    by (rule clean_elem_normal) simp_all
  have "split_on CHR ''/'' (P @ ''/test/hello.txt'') = split_on CHR ''/'' P @ [''test'', ''hello.txt'']"
    using split_on_append [of "CHR ''/''" P "''test/hello.txt''"] split_test_hello by simp
  then have k: "foldl (clean_elem r) [] (split_on CHR ''/'' (P @ ''/test/hello.txt''))
             = (S @ [''test'']) @ [''hello.txt'']"
    using t h by (simp add: S_def)
  have "split_on CHR ''/'' (P @ ''/test/'') = split_on CHR ''/'' P @ [''test'', []]"
    using split_on_append [of "CHR ''/''" P "''test/''"] split_test_slash by simp
  then have f: "foldl (clean_elem r) [] (split_on CHR ''/'' (P @ ''/test/'')) = S @ [''test'']"
    using t clean_elem_empty [of r "S @ [''test'']"] by (simp add: S_def)
  have j1: "join_with ''/'' ((S @ [''test'']) @ [''hello.txt''])
              = join_with ''/'' (S @ [''test'']) @ ''/hello.txt''"
    by (subst join_with_snoc) simp
  have j2: "join_with ''/'' (S @ [''test'']) \<noteq> []"
    by (subst join_with_snoc) simp
  show ?thesis unfolding k f using j1 j2 by blast
qed

lemma path_Clean_test_hello: "path_Clean ''test/hello.txt'' = ''test/hello.txt''"
  by (simp add: path_Clean_def clean_elem_def)

lemma path_Clean_test_slash: "path_Clean ''test/'' = ''test''"
  by (simp add: path_Clean_def clean_elem_def)

lemma path_Join_listing:
  "path_Join [P, ''test/hello.txt''] = path_Join [P, ''test/''] @ ''/hello.txt''
   \<and> path_Join [P, ''test/''] \<noteq> []"
proof (cases "P = []")
  case True
  then show ?thesis by (simp add: path_Clean_test_hello path_Clean_test_slash)
next
  case False
  show ?thesis
  proof (cases "hd P = CHR ''/''")
    case True
    note cl = clean_listing [of True P]
    have c1: "path_Clean (P @ ''/test/hello.txt'') = path_Clean (P @ ''/test/'') @ ''/hello.txt''"
      using False True cl by (simp add: path_Clean_def Let_def)
    have c2: "path_Clean (P @ ''/test/'') \<noteq> []"
      using False True by (simp add: path_Clean_def Let_def)
    from False c1 c2 show ?thesis by simp
  next
    case nr: False
    note cl = clean_listing [of False P]
    have c1: "path_Clean (P @ ''/test/hello.txt'') = path_Clean (P @ ''/test/'') @ ''/hello.txt''"
      using False nr cl by (simp add: path_Clean_def Let_def)
    have c2: "path_Clean (P @ ''/test/'') \<noteq> []"
      using False nr cl by (simp add: path_Clean_def Let_def)
    from False c1 c2 show ?thesis by simp
  qed
qed

lemma strings_Replace1_absent:
  "old \<noteq> [] \<Longrightarrow> \<not> sublist old s \<Longrightarrow> strings_Replace1 s old new = s"
proof (induction s)
  case Nil
  then show ?case by simp
next
  case (Cons c cs)
  from Cons.prems(2) have np: "\<not> prefix old (c # cs)" and ns: "\<not> sublist old cs"
    by (simp_all add: sublist_Cons_right)
  from Cons.IH [OF Cons.prems(1) ns] np show ?case by simp
qed

lemma strings_Replace1_first:
  assumes "old \<noteq> []"
    and "\<forall>u' v'. u @ old @ v = u' @ old @ v' \<longrightarrow> length u \<le> length u'"
  shows "strings_Replace1 (u @ old @ v) old new = u @ new @ v"
  using assms
proof (induction u)
  case Nil
  then obtain c cs where s: "old = c # cs" by (cases old) simp_all
  show ?case unfolding s by simp
next
  case (Cons x u)
  have np: "\<not> prefix old (x # u @ old @ v)"
  proof
    assume "prefix old (x # u @ old @ v)"
    then obtain w where "x # u @ old @ v = old @ w" unfolding prefix_def by (elim exE)
    then have "(x # u) @ old @ v = [] @ old @ w" by simp
    with Cons.prems(2) have "length (x # u) \<le> length ([]::string)" by (elim allE impE)
    then show False by simp
  qed
  have "\<forall>u' v'. u @ old @ v = u' @ old @ v' \<longrightarrow> length u \<le> length u'"
  proof (intro allI impI)
    fix u' v' assume "u @ old @ v = u' @ old @ v'"
    then have "(x # u) @ old @ v = (x # u') @ old @ v'" by simp
    with Cons.prems(2) have "length (x # u) \<le> length (x # u')" by (elim allE impE)
    then show "length u \<le> length u'" by simp
  qed
  from Cons.IH [OF Cons.prems(1) this] np show ?case by simp
qed

lemma strings_Replace1_leading:
  "old \<noteq> [] \<Longrightarrow> strings_Replace1 (old @ r) old new = new @ r"
  using strings_Replace1_first [of old "[]" r new] by simp

lemma removePrefix_leading:
  "p \<noteq> [] \<Longrightarrow> removePrefixFromObjectPath p (p @ ''/'' @ r) = r"
  using strings_Replace1_leading [of "p @ ''/''" r "[]"]
  by (simp add: removePrefixFromObjectPath_def)

lemma containsSubstring_from_sound:
  "0 \<le> i \<Longrightarrow> containsSubstring_from i s sub \<Longrightarrow> sublist sub s"
proof (induction i s sub rule: containsSubstring_from.induct)
  case (1 i s sub)
  from "1.prems"(2) have le: "i \<le> int (length s) - int (length sub)"
    by (subst (asm) containsSubstring_from.simps) (simp split: if_splits)
  show ?case
  proof (cases "take (length sub) (drop (nat i) s) = sub")
    case True
    have "s = take (nat i) s @ take (length sub) (drop (nat i) s) @ drop (length sub) (drop (nat i) s)"
      by (metis append_take_drop_id)
    with True have "s = take (nat i) s @ sub @ drop (length sub) (drop (nat i) s)" by simp
    then show ?thesis unfolding sublist_def by blast
  next
    case False
    with le "1.prems"(2) have "containsSubstring_from (i + 1) s sub"
      by (subst (asm) containsSubstring_from.simps) simp
    with "1.IH" [OF le False] "1.prems"(1) show ?thesis by simp
  qed
qed

lemma containsSubstring_from_complete:
  "i \<le> j \<Longrightarrow> j \<le> int (length s) - int (length sub) \<Longrightarrow>
   take (length sub) (drop (nat j) s) = sub \<Longrightarrow> containsSubstring_from i s sub"
proof (induction i s sub rule: containsSubstring_from.induct)
  case (1 i s sub)
  from "1.prems" have le: "i \<le> int (length s) - int (length sub)" by simp
  show ?case
  proof (cases "take (length sub) (drop (nat i) s) = sub")
    case True
    with le show ?thesis by (subst containsSubstring_from.simps) simp
  next
    case False
    with "1.prems"(3) have "i \<noteq> j" by blast
    with "1.prems"(1) have "i + 1 \<le> j" by simp
    from "1.IH" [OF le False this "1.prems"(2) "1.prems"(3)]
    have "containsSubstring_from (i + 1) s sub" .
    with le False show ?thesis by (subst containsSubstring_from.simps) simp
  qed
qed

lemma contains_iff_sublist: "contains s sub \<longleftrightarrow> sublist sub s"
proof
  assume "contains s sub"
  then have "s = sub \<or> containsSubstring_from 0 s sub"
    by (auto simp: contains_def containsSubstring_def)
  then show "sublist sub s"
    using containsSubstring_from_sound [of 0 s sub] by auto
next
  assume sub: "sublist sub s"
  then obtain ps ss where s: "s = ps @ sub @ ss" by (auto simp: sublist_def)
  have len: "length sub \<le> length s" using s by simp
  have "take (length sub) (drop (nat (int (length ps))) s) = sub" using s by simp
  moreover have "int (length ps) \<le> int (length s) - int (length sub)" using s by simp
  ultimately have "containsSubstring_from 0 s sub"
    using containsSubstring_from_complete [of 0 "int (length ps)" s sub] by simp
  then have cs: "containsSubstring s sub" by (simp add: containsSubstring_def)
  show "contains s sub"
  proof (cases "s = []")
    case True
    with s show ?thesis by (simp add: contains_def)
  next
    case False
    with cs len show ?thesis by (simp add: contains_def)
  qed
qed

lemma first_occurrence:
  assumes "old \<noteq> []" and "\<not> sublist old (u @ butlast old)"
  shows "\<forall>u' v'. u @ old @ v = u' @ old @ v' \<longrightarrow> length u \<le> length u'"
proof (intro allI impI)
  fix u' v' assume eq: "u @ old @ v = u' @ old @ v'"
  show "length u \<le> length u'"
  proof (rule ccontr)
    assume "\<not> length u \<le> length u'"
    then have len: "length (u' @ old) \<le> length (u @ butlast old)"
      using assms(1) by (cases old rule: rev_cases) simp_all
    have "u @ old @ v = (u' @ old) @ v'" using eq by simp
    then have p1: "prefix (u' @ old) (u @ old @ v)" unfolding prefix_def by blast
    have "u @ old @ v = (u @ butlast old) @ (last old # v)"
      using assms(1) by (cases old rule: rev_cases) simp_all
    then have p2: "prefix (u @ butlast old) (u @ old @ v)" unfolding prefix_def by blast
    from prefix_length_prefix [OF p1 p2 len] obtain ss where "u @ butlast old = (u' @ old) @ ss"
      unfolding prefix_def by blast
    then have "u @ butlast old = u' @ old @ ss" by simp
    then have "sublist old (u @ butlast old)" unfolding sublist_def by blast
    with assms(2) show False by simp
  qed
qed

section \<open>Lemmas on listing\<close>

lemma S3_append_Contents_complete:
  "entries_complete cs \<Longrightarrow>
   S3_append_Contents fp cs objects = Inr (objects @ Objects_of_Contents fp cs)"
proof (induction cs arbitrary: objects)
  case Nil
  show ?case by (simp add: Objects_of_Contents_def)
next
  case (Cons c cs)
  from Cons.prems obtain k t where c: "s3_Key c = Some k" "s3_LastModified c = Some t"
    and cs: "entries_complete cs"
    by (auto simp: entries_complete_def)
  have "Objects_of_Contents fp (c # cs) =
          \<lparr>Meta = \<lparr>Name = [], Version = []\<rparr>, Path = removePrefixFromObjectPath fp k,
           Content = [], LastModified = t\<rparr> # Objects_of_Contents fp cs"
    using c by (simp add: Objects_of_Contents_def)
  with c Cons.IH [OF cs] show ?case by simp
qed

lemma S3_append_Contents_panic:
  "S3_append_Contents fp cs objects = Inl p \<Longrightarrow> p = NilPointerDereference"
proof (induction cs arbitrary: objects)
  case Nil
  then show ?case by simp
next
  case (Cons c cs)
  show ?case
  proof (cases "s3_Key c")
    case None
    with Cons.prems show ?thesis by simp
  next
    case (Some k)
    show ?thesis
    proof (cases "s3_LastModified c")
      case None
      with Some Cons.prems show ?thesis by simp
    next
      case (Some t)
      with \<open>s3_Key c = Some k\<close> Cons.prems Cons.IH show ?thesis by simp
    qed
  qed
qed

lemma S3_append_Contents_Content:
  "S3_append_Contents fp cs objects = Inr objects' \<Longrightarrow>
   \<forall>x\<in>set objects. Content x = [] \<Longrightarrow> \<forall>x\<in>set objects'. Content x = []"
proof (induction cs arbitrary: objects)
  case Nil
  then show ?case by simp
next
  case (Cons c cs)
  from Cons.prems(1) obtain k where k: "s3_Key c = Some k"
    by (cases "s3_Key c") simp_all
  from Cons.prems(1) k obtain t where t: "s3_LastModified c = Some t"
    by (cases "s3_LastModified c") simp_all
  define x where "x = \<lparr>Meta = \<lparr>Name = [], Version = []\<rparr>,
                        Path = removePrefixFromObjectPath fp k,
                        Content = [], LastModified = t\<rparr>"
  from Cons.prems(1) k t have run: "S3_append_Contents fp cs (objects @ [x]) = Inr objects'"
    by (simp add: x_def)
  have "\<forall>y\<in>set (objects @ [x]). Content y = []"
    using Cons.prems(2) by (simp add: x_def)
  from Cons.IH [OF run this] show ?case .
qed

lemma S3_GetObjects_loop_error:
  assumes "ListObjectsWithContext (Client b) inp \<sigma> = ((r, Some e), \<sigma>')"
  shows "S3_GetObjects_loop b fp inp objs \<sigma> = Some (Inr (objs, Some (S3_classify e S3GetObjects)), \<sigma>')"
proof -
  have "S3_GetObjects_body b fp inp objs \<sigma> =
          (Return (Inr (objs, Some (S3_classify e S3GetObjects))), \<sigma>')"
    using assms by (cases r) (simp_all add: S3_GetObjects_body_def S3_classify_def Let_def)
  then show ?thesis by (subst S3_GetObjects_loop.simps) simp
qed

lemma S3_GetObjects_loop_nil:
  assumes "ListObjectsWithContext (Client b) inp \<sigma> = ((None, None), \<sigma>')"
  shows "S3_GetObjects_loop b fp inp objs \<sigma> = Some (Inl NilPointerDereference, \<sigma>')"
  using assms
  by (subst S3_GetObjects_loop.simps) (simp add: S3_GetObjects_body_def)

lemma S3_GetObjects_loop_last:
  assumes "ListObjectsWithContext (Client b) inp \<sigma> = ((Some out, None), \<sigma>')"
    and "entries_complete (Contents out)"
    and "IsTruncated out \<noteq> Some True"
  shows "S3_GetObjects_loop b fp inp objs \<sigma> =
           Some (Inr (objs @ Objects_of_Contents fp (Contents out), None), \<sigma>')"
proof -
  from assms(3) have "IsTruncated out = None \<or> IsTruncated out = Some False"
    by (cases "IsTruncated out") auto
  with assms(1) S3_append_Contents_complete [OF assms(2), of fp objs] show ?thesis
    by (subst S3_GetObjects_loop.simps) (simp add: S3_GetObjects_body_def)
qed

lemma S3_GetObjects_loop_more:
  assumes "ListObjectsWithContext (Client b) inp \<sigma> = ((Some out, None), \<sigma>')"
    and "entries_complete (Contents out)"
    and "IsTruncated out = Some True"
    and "Contents out \<noteq> []"
  shows "S3_GetObjects_loop b fp inp objs \<sigma> =
           S3_GetObjects_loop b fp (inp\<lparr>li_Marker := s3_Key (last (Contents out))\<rparr>)
             (objs @ Objects_of_Contents fp (Contents out)) \<sigma>'"
  using assms(1,3,4) S3_append_Contents_complete [OF assms(2), of fp objs]
  by (subst S3_GetObjects_loop.simps) (simp add: S3_GetObjects_body_def)

lemma S3_GetObjects_loop_out_of_range:
  assumes "ListObjectsWithContext (Client b) inp \<sigma> = ((Some out, None), \<sigma>')"
    and "IsTruncated out = Some True"
    and "Contents out = []"
  shows "S3_GetObjects_loop b fp inp objs \<sigma> = Some (Inl IndexOutOfRange, \<sigma>')"
  using assms
  by (subst S3_GetObjects_loop.simps) (simp add: S3_GetObjects_body_def)

lemma scripted_ListObjects:
  "ListObjectsWithContext (Client (scripted_S3Backend bucket pfx)) inp
     \<lparr>pending = r # rs, received = rcv\<rparr> = (r, \<lparr>pending = rs, received = rcv @ [inp]\<rparr>)"
  by (simp add: scripted_S3Backend_def scripted_S3Client_def)

lemma scripted_ListObjects_exhausted:
  "ListObjectsWithContext (Client (scripted_S3Backend bucket pfx)) inp
     \<lparr>pending = [], received = rcv\<rparr> =
   ((None, Some ''script exhausted''), \<lparr>pending = [], received = rcv @ [inp]\<rparr>)"
  by (simp add: scripted_S3Backend_def scripted_S3Client_def)

lemma scripted_pages_then_last:
  assumes "list_all full_page ps"
    and "entries_complete (Contents q)"
    and "IsTruncated q \<noteq> Some True"
  shows "S3_GetObjects_loop (scripted_S3Backend bucket pfx) fp inp objs
           \<lparr>pending = map (\<lambda>p. (Some p, None)) (ps @ [q]) @ rest, received = rcv\<rparr> =
         Some (Inr (objs @ concat (map (\<lambda>p. Objects_of_Contents fp (Contents p)) (ps @ [q])), None),
               \<lparr>pending = rest,
                received = rcv @ inp # map (\<lambda>p. inp\<lparr>li_Marker := s3_Key (last (Contents p))\<rparr>) ps\<rparr>)"
  using assms(1)
proof (induction ps arbitrary: inp objs rcv)
  case Nil
  show ?case
    using S3_GetObjects_loop_last [OF scripted_ListObjects assms(2) assms(3)]
    by simp
next
  case (Cons p ps)
  from Cons.prems have fp: "full_page p" and ps: "list_all full_page ps"
    by simp_all
  from fp have p: "entries_complete (Contents p)" "IsTruncated p = Some True"
    "Contents p \<noteq> []"
    by (simp_all add: full_page_def)
  have "S3_GetObjects_loop (scripted_S3Backend bucket pfx) fp inp objs
           \<lparr>pending = map (\<lambda>p. (Some p, None)) ((p # ps) @ [q]) @ rest, received = rcv\<rparr> =
        S3_GetObjects_loop (scripted_S3Backend bucket pfx) fp
           (inp\<lparr>li_Marker := s3_Key (last (Contents p))\<rparr>)
           (objs @ Objects_of_Contents fp (Contents p))
           \<lparr>pending = map (\<lambda>p. (Some p, None)) (ps @ [q]) @ rest, received = rcv @ [inp]\<rparr>"
    using S3_GetObjects_loop_more [OF scripted_ListObjects p] by simp
  also have "\<dots> = Some (Inr ((objs @ Objects_of_Contents fp (Contents p)) @
                      concat (map (\<lambda>p. Objects_of_Contents fp (Contents p)) (ps @ [q])), None),
               \<lparr>pending = rest,
                received = (rcv @ [inp]) @ inp\<lparr>li_Marker := s3_Key (last (Contents p))\<rparr> #
                   map (\<lambda>p'. inp\<lparr>li_Marker := s3_Key (last (Contents p))\<rparr>
                               \<lparr>li_Marker := s3_Key (last (Contents p'))\<rparr>) ps\<rparr>)"
    by (rule Cons.IH [OF ps])
  finally show ?case by simp
qed

lemma scripted_pages_then_error:
  assumes "list_all full_page ps"
  shows "S3_GetObjects_loop (scripted_S3Backend bucket pfx) fp inp objs
           \<lparr>pending = map (\<lambda>p. (Some p, None)) ps @ (r, Some e) # rest, received = rcv\<rparr> =
         Some (Inr (objs @ concat (map (\<lambda>p. Objects_of_Contents fp (Contents p)) ps),
                    Some (S3_classify e S3GetObjects)),
               \<lparr>pending = rest,
                received = rcv @ inp # map (\<lambda>p. inp\<lparr>li_Marker := s3_Key (last (Contents p))\<rparr>) ps\<rparr>)"
  using assms
proof (induction ps arbitrary: inp objs rcv)
  case Nil
  show ?case
    using S3_GetObjects_loop_error [OF scripted_ListObjects] by simp
next
  case (Cons p ps)
  from Cons.prems have fp: "full_page p" and ps: "list_all full_page ps"
    by simp_all
  from fp have p: "entries_complete (Contents p)" "IsTruncated p = Some True"
    "Contents p \<noteq> []"
    by (simp_all add: full_page_def)
  have "S3_GetObjects_loop (scripted_S3Backend bucket pfx) fp inp objs
           \<lparr>pending = map (\<lambda>p. (Some p, None)) (p # ps) @ (r, Some e) # rest, received = rcv\<rparr> =
        S3_GetObjects_loop (scripted_S3Backend bucket pfx) fp
           (inp\<lparr>li_Marker := s3_Key (last (Contents p))\<rparr>)
           (objs @ Objects_of_Contents fp (Contents p))
           \<lparr>pending = map (\<lambda>p. (Some p, None)) ps @ (r, Some e) # rest, received = rcv @ [inp]\<rparr>"
    using S3_GetObjects_loop_more [OF scripted_ListObjects p] by simp
  also have "\<dots> = Some (Inr ((objs @ Objects_of_Contents fp (Contents p)) @
                      concat (map (\<lambda>p. Objects_of_Contents fp (Contents p)) ps),
                      Some (S3_classify e S3GetObjects)),
               \<lparr>pending = rest,
                received = (rcv @ [inp]) @ inp\<lparr>li_Marker := s3_Key (last (Contents p))\<rparr> #
                   map (\<lambda>p'. inp\<lparr>li_Marker := s3_Key (last (Contents p))\<rparr>
                               \<lparr>li_Marker := s3_Key (last (Contents p'))\<rparr>) ps\<rparr>)"
    by (rule Cons.IH [OF ps])
  finally show ?case by simp
qed

lemma isS3NotFoundError_iff: "isS3NotFoundError (Some e) \<longleftrightarrow> names_absence e"
  by (simp add: isS3NotFoundError_def names_absence_def contains_iff_sublist)

lemma httpCode_S3_classify:
  "httpCode (S3_classify e c) = (if names_absence e then 404 else 500)"
  by (simp add: S3_classify_def isS3NotFoundError_iff SetHTTPCode_def GetAppErr_def
        StatusNotFound_def StatusInternalServerError_def)

lemma S3_GetObject_error:
  assumes "GetObjectWithContext (Client b)
             \<lparr>gi_Bucket = Bucket b, gi_Key = path_Join [Prefix b, path]\<rparr> \<sigma> = ((r, Some e), \<sigma>')"
  shows "S3_GetObject b path \<sigma> =
           (Inr (zero_Object\<lparr>Path := path\<rparr>, Some (S3_classify e S3GetObject)), \<sigma>')"
  using assms by (cases r) (simp_all add: S3_GetObject_def S3_classify_def Let_def)

lemma S3_DeleteObject_error:
  assumes "DeleteObjectWithContext (Client b)
             \<lparr>di_Bucket = Bucket b, di_Key = path_Join [Prefix b, path]\<rparr> \<sigma> = (Some e, \<sigma>')"
  shows "S3_DeleteObject b path \<sigma> = (Some (S3_classify e S3DeleteObject), \<sigma>')"
  using assms by (simp add: S3_DeleteObject_def S3_classify_def Let_def)

lemma S3_CopyObject_error:
  assumes "CopyObjectWithContext (Client b)
             \<lparr>ci_Bucket = Bucket b,
              ci_CopySource = url_PathEscape (path_Join [Bucket b, Prefix b, srcPath]),
              ci_Key = path_Join [Prefix b, dstPath]\<rparr> \<sigma> = (Some e, \<sigma>')"
  shows "S3_CopyObject b srcPath dstPath \<sigma> = (Some (S3_classify e S3CopyObject), \<sigma>')"
  using assms by (simp add: S3_CopyObject_def S3_classify_def Let_def)

lemma recording_S3Backend_fields:
  "Bucket (recording_S3Backend bucket pfx err) = bucket"
  "Prefix (recording_S3Backend bucket pfx err) = pfx"
  "ListObjectsWithContext (Client (recording_S3Backend bucket pfx err)) li \<sigma> =
     ((None, Some err), \<sigma> @ [ListObjects li])"
  "GetObjectWithContext (Client (recording_S3Backend bucket pfx err)) gi \<sigma> =
     ((None, Some err), \<sigma> @ [GetObject gi])"
  "DeleteObjectWithContext (Client (recording_S3Backend bucket pfx err)) di \<sigma> =
     (Some err, \<sigma> @ [DeleteObject di])"
  "CopyObjectWithContext (Client (recording_S3Backend bucket pfx err)) ci \<sigma> =
     (Some err, \<sigma> @ [CopyObject ci])"
  "UploadWithContext (Uploader (recording_S3Backend bucket pfx err)) ui \<sigma> =
     (Some err, \<sigma> @ [Upload ui])"
  by (simp_all add: recording_S3Backend_def)

lemma GCS_GetObjects_loop_done:
  assumes "Iterator_Next (gcs_Client b) \<sigma> = (Done, \<sigma>')"
  shows "GCS_GetObjects_loop b fp objs \<sigma> = Some ((objs, None), \<sigma>')"
  using assms
  by (subst GCS_GetObjects_loop.simps) (simp add: GCS_GetObjects_body_def)

lemma GCS_GetObjects_loop_error:
  assumes "Iterator_Next (gcs_Client b) \<sigma> = (Failed e, \<sigma>')"
  shows "GCS_GetObjects_loop b fp objs \<sigma> =
           Some ((objs, Some (GCS_classify e GCSGetObjects)), \<sigma>')"
  using assms
  by (subst GCS_GetObjects_loop.simps) (simp add: GCS_GetObjects_body_def GCS_classify_def Let_def)

lemma GCS_GetObjects_loop_more:
  assumes "Iterator_Next (gcs_Client b) \<sigma> = (Attrs a, \<sigma>')"
  shows "GCS_GetObjects_loop b fp objs \<sigma> =
           GCS_GetObjects_loop b fp (objs @ Objects_of_Attrs fp [a]) \<sigma>'"
  using assms
  by (subst GCS_GetObjects_loop.simps)
     (simp add: GCS_GetObjects_body_def Objects_of_Attrs_def)

lemma scripted_Iterator_Next:
  "Iterator_Next (gcs_Client (scripted_GCSBackend pfx)) (r # rs) = (r, rs)"
  "Iterator_Next (gcs_Client (scripted_GCSBackend pfx)) [] = (Done, [])"
  "Objects (gcs_Client (scripted_GCSBackend pfx)) q \<sigma> = \<sigma>"
  "gcs_Prefix (scripted_GCSBackend pfx) = pfx"
  by (simp_all add: scripted_GCSBackend_def scripted_GCSClient_def)

lemma scripted_items_then_error:
  "GCS_GetObjects_loop (scripted_GCSBackend pfx) fp objs (map Attrs as @ Failed e # rest) =
     Some ((objs @ Objects_of_Attrs fp as, Some (GCS_classify e GCSGetObjects)), rest)"
proof (induction as arbitrary: objs)
  case Nil
  show ?case
    using GCS_GetObjects_loop_error [OF scripted_Iterator_Next(1)]
    by (simp add: Objects_of_Attrs_def)
next
  case (Cons a as)
  have "GCS_GetObjects_loop (scripted_GCSBackend pfx) fp objs
          (map Attrs (a # as) @ Failed e # rest) =
        GCS_GetObjects_loop (scripted_GCSBackend pfx) fp (objs @ Objects_of_Attrs fp [a])
          (map Attrs as @ Failed e # rest)"
    using GCS_GetObjects_loop_more [OF scripted_Iterator_Next(1)] by simp
  also have "\<dots> = Some (((objs @ Objects_of_Attrs fp [a]) @ Objects_of_Attrs fp as,
                       Some (GCS_classify e GCSGetObjects)), rest)"
    by (rule Cons.IH)
  finally show ?case by (simp add: Objects_of_Attrs_def)
qed

lemma scripted_items_then_done:
  "GCS_GetObjects_loop (scripted_GCSBackend pfx) fp objs (map Attrs as @ Done # rest) =
     Some ((objs @ Objects_of_Attrs fp as, None), rest)"
proof (induction as arbitrary: objs)
  case Nil
  show ?case
    using GCS_GetObjects_loop_done [OF scripted_Iterator_Next(1)]
    by (simp add: Objects_of_Attrs_def)
next
  case (Cons a as)
  have "GCS_GetObjects_loop (scripted_GCSBackend pfx) fp objs
          (map Attrs (a # as) @ Done # rest) =
        GCS_GetObjects_loop (scripted_GCSBackend pfx) fp (objs @ Objects_of_Attrs fp [a])
          (map Attrs as @ Done # rest)"
    using GCS_GetObjects_loop_more [OF scripted_Iterator_Next(1)] by simp
  also have "\<dots> = Some (((objs @ Objects_of_Attrs fp [a]) @ Objects_of_Attrs fp as, None), rest)"
    by (rule Cons.IH)
  finally show ?case by (simp add: Objects_of_Attrs_def)
qed

lemma scripted_S3Backend_fields:
  "Bucket (scripted_S3Backend bucket pfx) = bucket"
  "Prefix (scripted_S3Backend bucket pfx) = pfx"
  by (simp_all add: scripted_S3Backend_def)

lemma path_Clean_data_logs: "path_Clean ''data/logs'' = ''data/logs''"
  by (simp add: path_Clean_def clean_elem_def)

lemma S3_GetObjects_loop_not_truncated:
  assumes "ListObjectsWithContext (Client b) inp \<sigma> = ((Some out, None), \<sigma>')"
    and "IsTruncated out \<noteq> Some True"
  shows "\<exists>r. S3_GetObjects_loop b fp inp objs \<sigma> = Some (r, \<sigma>') \<and> r \<noteq> Inl IndexOutOfRange"
proof -
  from assms(2) have nt: "IsTruncated out = None \<or> IsTruncated out = Some False"
    by (cases "IsTruncated out") auto
  show ?thesis
  proof (cases "S3_append_Contents fp (Contents out) objs")
    case (Inl p)
    with S3_append_Contents_panic [OF Inl] assms(1)
    have "S3_GetObjects_loop b fp inp objs \<sigma> = Some (Inl NilPointerDereference, \<sigma>')"
      by (subst S3_GetObjects_loop.simps) (simp add: S3_GetObjects_body_def)
    then show ?thesis by simp
  next
    case (Inr objs')
    with nt assms(1)
    have "S3_GetObjects_loop b fp inp objs \<sigma> = Some (Inr (objs', None), \<sigma>')"
      by (subst S3_GetObjects_loop.simps) (simp add: S3_GetObjects_body_def)
    then show ?thesis by simp
  qed
qed

lemma S3_GetObjects_loop_truncated:
  assumes "ListObjectsWithContext (Client b) inp \<sigma> = ((Some out, None), \<sigma>')"
    and "IsTruncated out = Some True"
    and "Contents out \<noteq> []"
  shows "S3_GetObjects_loop b fp inp objs \<sigma> = Some (Inl NilPointerDereference, \<sigma>')
       \<or> (\<exists>objs'. S3_GetObjects_loop b fp inp objs \<sigma> =
             S3_GetObjects_loop b fp (inp\<lparr>li_Marker := s3_Key (last (Contents out))\<rparr>) objs' \<sigma>')"
proof (cases "S3_append_Contents fp (Contents out) objs")
  case (Inl p)
  with S3_append_Contents_panic [OF Inl] assms(1)
  have "S3_GetObjects_loop b fp inp objs \<sigma> = Some (Inl NilPointerDereference, \<sigma>')"
    by (subst S3_GetObjects_loop.simps) (simp add: S3_GetObjects_body_def)
  then show ?thesis by simp
next
  case (Inr objs')
  with assms
  have "S3_GetObjects_loop b fp inp objs \<sigma> =
          S3_GetObjects_loop b fp (inp\<lparr>li_Marker := s3_Key (last (Contents out))\<rparr>) objs' \<sigma>'"
    by (subst S3_GetObjects_loop.simps) (simp add: S3_GetObjects_body_def)
  then show ?thesis by blast
qed

lemma scripted_run_in_bounds:
  assumes "list_all safe_response script"
  shows "\<exists>r \<tau>. S3_GetObjects_loop (scripted_S3Backend bucket pfx) fp inp objs
                  \<lparr>pending = script, received = rcv\<rparr> = Some (r, \<tau>)
               \<and> r \<noteq> Inl IndexOutOfRange"
  using assms
proof (induction script arbitrary: inp objs rcv)
  case Nil
  show ?case
    using S3_GetObjects_loop_error [OF scripted_ListObjects_exhausted] by simp
next
  case (Cons resp script)
  from Cons.prems have safe: "safe_response resp" and rest: "list_all safe_response script"
    by simp_all
  obtain out err where resp: "resp = (out, err)" by (cases resp)
  show ?case
  proof (cases err)
    case (Some e)
    show ?thesis
      unfolding resp Some
      using S3_GetObjects_loop_error [OF scripted_ListObjects] by simp
  next
    case None
    show ?thesis
    proof (cases out)
      case no: None
      show ?thesis
        unfolding resp None no
        using S3_GetObjects_loop_nil [OF scripted_ListObjects] by simp
    next
      case (Some page)
      note call = scripted_ListObjects [of bucket pfx inp "(Some page, None)" script rcv]
      show ?thesis
      proof (cases "IsTruncated page = Some True")
        case False
        from S3_GetObjects_loop_not_truncated [OF call False, of fp objs]
        show ?thesis unfolding resp None Some by blast
      next
        case True
        with safe have ne: "Contents page \<noteq> []"
          by (simp add: safe_response_def resp None Some)
        from S3_GetObjects_loop_truncated [OF call True ne, of fp objs]
        show ?thesis
        proof
          assume "S3_GetObjects_loop (scripted_S3Backend bucket pfx) fp inp objs
                    \<lparr>pending = (Some page, None) # script, received = rcv\<rparr> =
                  Some (Inl NilPointerDereference, \<lparr>pending = script, received = rcv @ [inp]\<rparr>)"
          then show ?thesis unfolding resp None Some by simp
        next
          assume "\<exists>objs'. S3_GetObjects_loop (scripted_S3Backend bucket pfx) fp inp objs
                    \<lparr>pending = (Some page, None) # script, received = rcv\<rparr> =
                  S3_GetObjects_loop (scripted_S3Backend bucket pfx) fp
                    (inp\<lparr>li_Marker := s3_Key (last (Contents page))\<rparr>) objs'
                    \<lparr>pending = script, received = rcv @ [inp]\<rparr>"
          then obtain objs' where
            "S3_GetObjects_loop (scripted_S3Backend bucket pfx) fp inp objs
                    \<lparr>pending = (Some page, None) # script, received = rcv\<rparr> =
                  S3_GetObjects_loop (scripted_S3Backend bucket pfx) fp
                    (inp\<lparr>li_Marker := s3_Key (last (Contents page))\<rparr>) objs'
                    \<lparr>pending = script, received = rcv @ [inp]\<rparr>" by blast
          with Cons.IH [OF rest, of "inp\<lparr>li_Marker := s3_Key (last (Contents page))\<rparr>" objs'
                  "rcv @ [inp]"]
          show ?thesis unfolding resp None Some by simp
        qed
      qed
    qed
  qed
qed

lemma S3_GetObjects_body_Content:
  assumes "S3_GetObjects_body b fp inp acc \<sigma> = (step, \<sigma>')"
    and "\<forall>x\<in>set acc. Content x = []"
  shows "(\<forall>objs err. step = Return (Inr (objs, err)) \<longrightarrow> (\<forall>x\<in>set objs. Content x = []))
       \<and> (\<forall>inp' objs. step = Continue (inp', objs) \<longrightarrow> (\<forall>x\<in>set objs. Content x = []))"
proof -
  obtain r e \<tau> where call: "ListObjectsWithContext (Client b) inp \<sigma> = ((r, e), \<tau>)"
    by (metis surj_pair)
  show ?thesis
  proof (cases e)
    case (Some err)
    with call assms show ?thesis
      by (cases r) (auto simp: S3_GetObjects_body_def Let_def)
  next
    case None
    show ?thesis
    proof (cases r)
      case no: None
      with None call assms show ?thesis
        by (auto simp: S3_GetObjects_body_def)
    next
      case (Some out)
      show ?thesis
      proof (cases "S3_append_Contents fp (Contents out) acc")
        case (Inl p)
        with Some None call assms show ?thesis
          by (auto simp: S3_GetObjects_body_def)
      next
        case (Inr objs')
        from S3_append_Contents_Content [OF Inr assms(2)]
        have "\<forall>x\<in>set objs'. Content x = []" .
        with Inr Some None call assms(1) show ?thesis
          by (auto simp: S3_GetObjects_body_def split: if_splits)
      qed
    qed
  qed
qed

lemma S3_GetObjects_loop_Content:
  assumes "S3_GetObjects_loop b fp inp acc \<sigma> = Some y"
  shows "(\<forall>x\<in>set acc. Content x = []) \<longrightarrow>
         (\<forall>objs err \<tau>. y = (Inr (objs, err), \<tau>) \<longrightarrow> (\<forall>x\<in>set objs. Content x = []))"
proof (induct rule: S3_GetObjects_loop.raw_induct [OF _ assms])
  case (1 loop b fp inp acc \<sigma> y)
  obtain step \<sigma>' where body: "S3_GetObjects_body b fp inp acc \<sigma> = (step, \<sigma>')"
    by (metis surj_pair)
  show ?case
  proof (intro impI)
    assume acc: "\<forall>x\<in>set acc. Content x = []"
    note inv = S3_GetObjects_body_Content [OF body acc]
    show "\<forall>objs err \<tau>. y = (Inr (objs, err), \<tau>) \<longrightarrow> (\<forall>x\<in>set objs. Content x = [])"
    proof (cases step)
      case (Return r)
      with "1.hyps"(2) body have "y = (r, \<sigma>')" by simp
      with inv Return show ?thesis by auto
    next
      case (Continue c)
      obtain inp' objs' where c: "c = (inp', objs')" by (cases c)
      with "1.hyps"(2) body Continue have run: "loop b fp inp' objs' \<sigma>' = Some y" by simp
      from inv Continue c have "\<forall>x\<in>set objs'. Content x = []" by simp
      with "1.hyps"(1) [OF run] show ?thesis by simp
    qed
  qed
qed

lemma GCS_GetObjects_loop_Content:
  assumes "GCS_GetObjects_loop b fp acc \<sigma> = Some y"
  shows "(\<forall>x\<in>set acc. Content x = []) \<longrightarrow>
         (\<forall>objs err \<tau>. y = ((objs, err), \<tau>) \<longrightarrow> (\<forall>x\<in>set objs. Content x = []))"
proof (induct rule: GCS_GetObjects_loop.raw_induct [OF _ assms])
  case (1 loop b fp acc \<sigma> y)
  obtain nxt \<sigma>' where call: "Iterator_Next (gcs_Client b) \<sigma> = (nxt, \<sigma>')"
    by (metis surj_pair)
  show ?case
  proof (intro impI)
    assume acc: "\<forall>x\<in>set acc. Content x = []"
    show "\<forall>objs err \<tau>. y = ((objs, err), \<tau>) \<longrightarrow> (\<forall>x\<in>set objs. Content x = [])"
    proof (cases nxt)
      case Done
      with "1.hyps"(2) call have "y = ((acc, None), \<sigma>')"
        by (simp add: GCS_GetObjects_body_def)
      with acc show ?thesis by simp
    next
      case (Failed e)
      with "1.hyps"(2) call have "fst (fst y) = acc"
        by (auto simp: GCS_GetObjects_body_def Let_def)
      with acc show ?thesis by auto
    next
      case (Attrs a)
      define x where "x = \<lparr>Meta = \<lparr>Name = [], Version = []\<rparr>,
                            Path = removePrefixFromObjectPath fp (attrs_Name a),
                            Content = [], LastModified = attrs_Updated a\<rparr>"
      from Attrs "1.hyps"(2) call have run: "loop b fp (acc @ [x]) \<sigma>' = Some y"
        by (simp add: GCS_GetObjects_body_def x_def)
      from acc have "\<forall>y\<in>set (acc @ [x]). Content y = []" by (simp add: x_def)
      with "1.hyps"(1) [OF run] show ?thesis by simp
    qed
  qed
qed

lemma kv_S3Backend_fields:
  "Bucket (kv_S3Backend bucket pfx) = bucket"
  "Prefix (kv_S3Backend bucket pfx) = pfx"
  "UploadWithContext (Uploader (kv_S3Backend bucket pfx)) ui \<sigma> =
     (None, \<lparr>stored = (ui_Key ui, ui_Body ui, clock \<sigma>)
                         # filter (\<lambda>e. fst e \<noteq> ui_Key ui) (stored \<sigma>),
              clock = clock \<sigma> + 1\<rparr>)"
  "GetObjectWithContext (Client (kv_S3Backend bucket pfx)) gi \<sigma> =
     (case map_of (stored \<sigma>) (gi_Key gi) of
        None \<Rightarrow> ((None, Some ''NoSuchKey: The specified key does not exist.''), \<sigma>)
      | Some e \<Rightarrow> ((Some \<lparr>Body = Some (Inr (fst e)), go_LastModified = Some (snd e)\<rparr>, None), \<sigma>))"
  "ListObjectsWithContext (Client (kv_S3Backend bucket pfx)) li \<sigma> =
     ((Some \<lparr>Contents =
               map (\<lambda>e. \<lparr>s3_Key = Some (fst e), s3_LastModified = Some (snd (snd e))\<rparr>)
                 (filter (\<lambda>e. prefix (li_Prefix li) (fst e)) (stored \<sigma>)),
             IsTruncated = Some False\<rparr>, None), \<sigma>)"
  by (simp_all add: kv_S3Backend_def kv_S3Client_def kv_S3Uploader_def)

lemma kv_S3_PutObject:
  "S3_PutObject (kv_S3Backend bucket pfx) p c \<sigma> =
     (None, \<lparr>stored = (path_Join [pfx, p], c, clock \<sigma>)
                         # filter (\<lambda>e. fst e \<noteq> path_Join [pfx, p]) (stored \<sigma>),
              clock = clock \<sigma> + 1\<rparr>)"
  by (simp add: S3_PutObject_def Let_def kv_S3Backend_fields del: path_Join.simps)

lemma kv_S3_GetObject_stored:
  assumes "map_of (stored \<sigma>) (path_Join [pfx, p]) = Some (c, t)"
  shows "S3_GetObject (kv_S3Backend bucket pfx) p \<sigma> =
           (Inr (zero_Object\<lparr>Path := p, Content := c, LastModified := t\<rparr>, None), \<sigma>)"
  using assms
  by (simp add: S3_GetObject_def Let_def kv_S3Backend_fields del: path_Join.simps)

lemma kv_GCSBackend_fields:
  "gcs_Prefix (kv_GCSBackend pfx) = pfx"
  "Object_NewWriter (gcs_Client (kv_GCSBackend pfx)) name \<sigma> =
     \<sigma>\<lparr>g_writers := (name, []) # filter (\<lambda>w. fst w \<noteq> name) (g_writers \<sigma>)\<rparr>"
  "Writer_Write (gcs_Client (kv_GCSBackend pfx)) name content \<sigma> =
     (None, \<sigma>\<lparr>g_writers :=
               (name, (case map_of (g_writers \<sigma>) name of None \<Rightarrow> [] | Some buf \<Rightarrow> buf) @ content)
               # filter (\<lambda>w. fst w \<noteq> name) (g_writers \<sigma>)\<rparr>)"
  "Writer_Close (gcs_Client (kv_GCSBackend pfx)) name \<sigma> =
     (None, \<sigma>\<lparr>g_stored :=
               (name, (case map_of (g_writers \<sigma>) name of None \<Rightarrow> [] | Some buf \<Rightarrow> buf),
                g_clock \<sigma>)
               # filter (\<lambda>e. fst e \<noteq> name) (g_stored \<sigma>),
             g_clock := g_clock \<sigma> + 1,
             g_writers := filter (\<lambda>w. fst w \<noteq> name) (g_writers \<sigma>)\<rparr>)"
  "Object_Attrs (gcs_Client (kv_GCSBackend pfx)) name \<sigma> =
     (case map_of (g_stored \<sigma>) name of
        None \<Rightarrow> (Inl ErrObjectNotExist, \<sigma>)
      | Some e \<Rightarrow> (Inr \<lparr>attrs_Name = name, attrs_Updated = snd e\<rparr>, \<sigma>))"
  "Object_NewReader (gcs_Client (kv_GCSBackend pfx)) name \<sigma> =
     (case map_of (g_stored \<sigma>) name of
        None \<Rightarrow> (Inl ErrObjectNotExist, \<sigma>)
      | Some e \<Rightarrow> (Inr \<lparr>rd_ReadAll = Inr (fst e), rd_Close = None\<rparr>, \<sigma>))"
  "Objects (gcs_Client (kv_GCSBackend pfx)) q \<sigma> =
     \<sigma>\<lparr>g_iterator :=
         map (\<lambda>e. \<lparr>attrs_Name = fst e, attrs_Updated = snd (snd e)\<rparr>)
           (filter (\<lambda>e. prefix (q_Prefix q) (fst e)) (g_stored \<sigma>))\<rparr>"
  "Iterator_Next (gcs_Client (kv_GCSBackend pfx)) \<sigma> =
     (case g_iterator \<sigma> of
        [] \<Rightarrow> (Done, \<sigma>)
      | a # as \<Rightarrow> (Attrs a, \<sigma>\<lparr>g_iterator := as\<rparr>))"
  by (simp_all add: kv_GCSBackend_def kv_GCSClient_def)

lemma kv_GCS_PutObject:
  "GCS_PutObject (kv_GCSBackend pfx) p c \<sigma> =
     (None, \<sigma>\<lparr>g_stored := (path_Join [pfx, p], c, g_clock \<sigma>)
                            # filter (\<lambda>e. fst e \<noteq> path_Join [pfx, p]) (g_stored \<sigma>),
             g_clock := g_clock \<sigma> + 1,
             g_writers := filter (\<lambda>w. fst w \<noteq> path_Join [pfx, p]) (g_writers \<sigma>)\<rparr>)"
  by (simp add: GCS_PutObject_def Let_def kv_GCSBackend_fields del: path_Join.simps)

lemma kv_GCS_GetObject_stored:
  assumes "map_of (g_stored \<sigma>) (path_Join [pfx, p]) = Some (c, t)"
  shows "GCS_GetObject (kv_GCSBackend pfx) p \<sigma> =
           ((zero_Object\<lparr>Path := p, LastModified := t, Content := c\<rparr>, None), \<sigma>)"
  using assms
  by (simp add: GCS_GetObject_def Let_def kv_GCSBackend_fields del: path_Join.simps)

lemma recording_GCSBackend_fields:
  "gcs_Prefix (recording_GCSBackend pfx err) = pfx"
  "Object_Attrs (gcs_Client (recording_GCSBackend pfx err)) name \<sigma> = (Inl err, \<sigma> @ [Call_Attrs name])"
  "Object_NewReader (gcs_Client (recording_GCSBackend pfx err)) name \<sigma> =
     (Inl err, \<sigma> @ [Call_NewReader name])"
  "Object_NewWriter (gcs_Client (recording_GCSBackend pfx err)) name \<sigma> = \<sigma> @ [Call_NewWriter name]"
  "Writer_Write (gcs_Client (recording_GCSBackend pfx err)) name content \<sigma> =
     (Some err, \<sigma> @ [Call_Write name content])"
  "Writer_Close (gcs_Client (recording_GCSBackend pfx err)) name \<sigma> =
     (Some err, \<sigma> @ [Call_Close name])"
  "Object_Delete (gcs_Client (recording_GCSBackend pfx err)) name \<sigma> =
     (Some err, \<sigma> @ [Call_Delete name])"
  "Copier_Run (gcs_Client (recording_GCSBackend pfx err)) dst src \<sigma> =
     (Some err, \<sigma> @ [Call_CopyFromTo src dst])"
  "Objects (gcs_Client (recording_GCSBackend pfx err)) q \<sigma> = \<sigma> @ [Call_Objects q]"
  "Iterator_Next (gcs_Client (recording_GCSBackend pfx err)) \<sigma> = (Failed err, \<sigma> @ [Call_Next])"
  by (simp_all add: recording_GCSBackend_def)

lemma httpCode_GCS_classify:
  "httpCode (GCS_classify e c) = (if e = ErrObjectNotExist then 404 else 500)"
  by (simp add: GCS_classify_def SetHTTPCode_def GetAppErr_def
        StatusNotFound_def StatusInternalServerError_def)

lemma path_Clean_data_a: "path_Clean ''data/a.txt'' = ''data/a.txt''"
  by (simp add: path_Clean_def clean_elem_def)

lemma path_Clean_data_test:
  "path_Clean ''data/test/'' = ''data/test''"
  "path_Clean ''data/test/hello.txt'' = ''data/test/hello.txt''"
  by (simp_all add: path_Clean_def clean_elem_def)

lemma entries_complete_kv:
  "entries_complete (map (\<lambda>e. \<lparr>s3_Key = Some (fst e), s3_LastModified = Some (snd (snd e))\<rparr>) es)"
  by (simp add: entries_complete_def list_all_iff)

lemma kv_S3_GetObjects_loop:
  "S3_GetObjects_loop (kv_S3Backend bucket pfx) fp
     \<lparr>li_Bucket = bucket, li_Prefix = fp, li_Marker = None\<rparr> [] \<sigma> =
   Some (Inr (Objects_of_Contents fp
                (map (\<lambda>e. \<lparr>s3_Key = Some (fst e), s3_LastModified = Some (snd (snd e))\<rparr>)
                   (filter (\<lambda>e. prefix fp (fst e)) (stored \<sigma>))), None), \<sigma>)"
  using S3_GetObjects_loop_last
    [where b = "kv_S3Backend bucket pfx"
       and inp = "\<lparr>li_Bucket = bucket, li_Prefix = fp, li_Marker = None\<rparr>"
       and \<sigma> = \<sigma> and \<sigma>' = \<sigma> and fp = fp and objs = "[]"
       and out = "\<lparr>Contents =
               map (\<lambda>e. \<lparr>s3_Key = Some (fst e), s3_LastModified = Some (snd (snd e))\<rparr>)
                 (filter (\<lambda>e. prefix fp (fst e)) (stored \<sigma>)),
             IsTruncated = Some False\<rparr>"]
  by (simp add: kv_S3Backend_fields entries_complete_kv)

lemma kv_GCS_drain:
  "g_iterator \<sigma> = as \<Longrightarrow>
   GCS_GetObjects_loop (kv_GCSBackend pfx) fp objs \<sigma> =
     Some ((objs @ Objects_of_Attrs fp as, None), \<sigma>\<lparr>g_iterator := []\<rparr>)"
proof (induction as arbitrary: \<sigma> objs)
  case Nil
  then have "Iterator_Next (gcs_Client (kv_GCSBackend pfx)) \<sigma> = (Done, \<sigma>)"
    by (simp add: kv_GCSBackend_fields)
  from GCS_GetObjects_loop_done [OF this, of fp objs] Nil show ?case
    by (cases \<sigma>) (simp add: Objects_of_Attrs_def)
next
  case (Cons a as)
  then have "Iterator_Next (gcs_Client (kv_GCSBackend pfx)) \<sigma> = (Attrs a, \<sigma>\<lparr>g_iterator := as\<rparr>)"
    by (simp add: kv_GCSBackend_fields)
  from GCS_GetObjects_loop_more [OF this, of fp objs]
  have "GCS_GetObjects_loop (kv_GCSBackend pfx) fp objs \<sigma> =
          GCS_GetObjects_loop (kv_GCSBackend pfx) fp (objs @ Objects_of_Attrs fp [a])
            (\<sigma>\<lparr>g_iterator := as\<rparr>)" .
  also have "\<dots> = Some (((objs @ Objects_of_Attrs fp [a]) @ Objects_of_Attrs fp as, None),
                      \<sigma>\<lparr>g_iterator := as\<rparr>\<lparr>g_iterator := []\<rparr>)"
    by (rule Cons.IH) simp
  finally show ?case by (simp add: Objects_of_Attrs_def)
qed

lemma join_with_split_on: "join_with [sep] (split_on sep s) = s"
proof (induction s)
  case Nil
  show ?case by simp
next
  case (Cons c cs)
  obtain w ws where w: "split_on sep cs = w # ws"
    using split_on_not_Nil [of sep cs] by (cases "split_on sep cs") simp_all
  show ?case
  proof (cases ws)
    case Nil
    with w Cons show ?thesis by simp
  next
    case (Cons x xs)
    with w Cons.IH show ?thesis by simp
  qed
qed

lemma foldl_clean_elem_plain:
  "list_all (\<lambda>e. e \<noteq> [] \<and> e \<noteq> ''.'' \<and> e \<noteq> ''..'') es \<Longrightarrow>
   foldl (clean_elem r) acc es = acc @ es"
proof (induction es arbitrary: acc)
  case Nil
  show ?case by simp
next
  case (Cons e es)
  from Cons.prems have e: "e \<noteq> []" "e \<noteq> ''.''" "e \<noteq> ''..''"
    and es: "list_all (\<lambda>e. e \<noteq> [] \<and> e \<noteq> ''.'' \<and> e \<noteq> ''..'') es"
    by simp_all
  from clean_elem_normal [OF e, of r acc] Cons.IH [OF es, of "acc @ [e]"]
  show ?case by simp
qed

lemma plain_path_not_rooted: "plain_path s \<Longrightarrow> s \<noteq> [] \<and> hd s \<noteq> CHR ''/''"
  by (cases s) (auto simp: plain_path_def)

lemma path_Clean_plain: "plain_path s \<Longrightarrow> path_Clean s = s"
proof -
  assume p: "plain_path s"
  from plain_path_not_rooted [OF p] have ne: "s \<noteq> []" and nr: "hd s \<noteq> CHR ''/''"
    by simp_all
  have "foldl (clean_elem False) [] (split_on CHR ''/'' s) = split_on CHR ''/'' s"
    using foldl_clean_elem_plain [of "split_on CHR ''/'' s" False "[]"] p
    by (simp add: plain_path_def)
  then have "join_with ''/'' (foldl (clean_elem False) [] (split_on CHR ''/'' s)) = s"
    using join_with_split_on [of "CHR ''/''" s] by simp
  with ne nr show ?thesis by (simp add: path_Clean_def Let_def)
qed

lemma plain_path_join:
  "plain_path a \<Longrightarrow> plain_path b \<Longrightarrow> plain_path (a @ ''/'' @ b)"
  using split_on_append [of "CHR ''/''" a b] by (simp add: plain_path_def)

lemma path_Join_plain:
  "plain_path a \<Longrightarrow> plain_path b \<Longrightarrow> path_Join [a, b] = a @ ''/'' @ b"
  using plain_path_not_rooted [of a] path_Clean_plain [OF plain_path_join, of a b] by simp

lemma path_Join_plain3:
  "plain_path a \<Longrightarrow> plain_path b \<Longrightarrow> plain_path c \<Longrightarrow>
   path_Join [a, b, c] = a @ ''/'' @ b @ ''/'' @ c"
  using plain_path_not_rooted [of a]
    path_Clean_plain [OF plain_path_join [OF _ plain_path_join], of a b c] by simp

lemma path_Join_empty_prefix: "plain_path b \<Longrightarrow> path_Join [Nil, b] = b"
  using plain_path_not_rooted [of b] path_Clean_plain [of b] by simp

lemma S3_GetObjects_loop_nil_entry:
  assumes "ListObjectsWithContext (Client b) inp \<sigma> = ((Some out, None), \<sigma>')"
    and "S3_append_Contents fp (Contents out) objs = Inl p"
  shows "S3_GetObjects_loop b fp inp objs \<sigma> = Some (Inl p, \<sigma>')"
  using assms
  by (subst S3_GetObjects_loop.simps) (simp add: S3_GetObjects_body_def)

section \<open>The claims\<close>

text \<open>
  \<^bold>\<open>C10\<close>. \<^verbatim>\<open>removePrefixFromObjectPath(p, k)\<close> returns \<open>k\<close> when \<open>p\<close> is empty. For a
  non-empty \<open>p\<close> it returns \<open>k\<close> when \<open>p/\<close> does not occur in \<open>k\<close>, and otherwise cuts
  the first occurrence of \<open>p/\<close> out of \<open>k\<close>, wherever it is: the occurrence after \<open>u\<close> is
  the first one when \<open>p/\<close> does not occur in \<open>u\<close> followed by \<open>p\<close>. So \<open>p/r\<close> becomes
  \<open>r\<close>, and a key that holds \<open>p/\<close> in a later position is altered as well.
\<close>

theorem removePrefixFromObjectPath_first_occurrence:
  "removePrefixFromObjectPath [] k = k
   \<and> (p \<noteq> [] \<longrightarrow> \<not> sublist (p @ ''/'') k \<longrightarrow> removePrefixFromObjectPath p k = k)
   \<and> (p \<noteq> [] \<longrightarrow> \<not> sublist (p @ ''/'') (u @ p) \<longrightarrow>
        removePrefixFromObjectPath p (u @ (p @ ''/'') @ v) = u @ v)
   \<and> (p \<noteq> [] \<longrightarrow> removePrefixFromObjectPath p (p @ ''/'' @ r) = r)
   \<and> removePrefixFromObjectPath ''data'' ''logs/data/x.txt'' = ''logs/x.txt''"
proof (intro conjI impI)
  show "removePrefixFromObjectPath [] k = k"
    by (simp add: removePrefixFromObjectPath_def)
next
  assume "p \<noteq> []" "\<not> sublist (p @ ''/'') k"
  then show "removePrefixFromObjectPath p k = k"
    using strings_Replace1_absent [of "p @ ''/''" k "[]"]
    by (simp add: removePrefixFromObjectPath_def)
next
  assume p: "p \<noteq> []" and first: "\<not> sublist (p @ ''/'') (u @ p)"
  have "\<forall>u' v'. u @ (p @ ''/'') @ v = u' @ (p @ ''/'') @ v' \<longrightarrow> length u \<le> length u'"
    using first_occurrence [of "p @ ''/''" u v] first by simp
  then have "strings_Replace1 (u @ (p @ ''/'') @ v) (p @ ''/'') [] = u @ [] @ v"
    by (intro strings_Replace1_first) simp_all
  with p show "removePrefixFromObjectPath p (u @ (p @ ''/'') @ v) = u @ v"
    by (simp add: removePrefixFromObjectPath_def)
next
  assume "p \<noteq> []"
  then show "removePrefixFromObjectPath p (p @ ''/'' @ r) = r"
    by (rule removePrefix_leading)
next
  show "removePrefixFromObjectPath ''data'' ''logs/data/x.txt'' = ''logs/x.txt''"
    by (simp add: removePrefixFromObjectPath_def)
qed

theorem removePrefixFromObjectPath_first_occurrence_witness:
  "removePrefixFromObjectPath ''data'' ''logs/x.txt'' = ''logs/x.txt''
   \<and> removePrefixFromObjectPath ''data'' (''logs/'' @ (''data'' @ ''/'') @ ''data/x.txt'') = ''logs/'' @ ''data/x.txt''
   \<and> removePrefixFromObjectPath ''data'' (''data'' @ ''/'' @ ''x.txt'') = ''x.txt''"
  using removePrefixFromObjectPath_first_occurrence
          [of "''logs/x.txt''" "''data''" "''logs/''" "''data/x.txt''" "''x.txt''"]
  by (simp add: sublist_code)

text \<open>
  \<^bold>\<open>C4\<close>. When the S3 client returns an error on \<^verbatim>\<open>GetObject\<close>, on a page of
  \<^verbatim>\<open>GetObjects\<close>, on \<^verbatim>\<open>DeleteObject\<close> or on \<^verbatim>\<open>CopyObject\<close>, the adapter returns an
  application error whose HTTP code is 404 if and only if the text of the error has
  \<open>NoSuchKey\<close>, \<open>NotFound\<close> or \<open>404\<close> as a substring, and 500 otherwise.
\<close>

theorem S3_not_found_by_error_text:
  "(GetObjectWithContext (Client b)
      \<lparr>gi_Bucket = Bucket b, gi_Key = path_Join [Prefix b, path]\<rparr> \<sigma> = ((r, Some e), \<tau>g) \<longrightarrow>
      (\<exists>obj appErr. S3_GetObject b path \<sigma> = (Inr (obj, Some appErr), \<tau>g)
         \<and> httpCode appErr = (if names_absence e then 404 else 500)))
   \<and> (ListObjectsWithContext (Client b) s3Input \<sigma> = ((r', Some e), \<tau>l) \<longrightarrow>
      (\<exists>appErr. S3_GetObjects_loop b fullPrefix s3Input objects \<sigma>
                   = Some (Inr (objects, Some appErr), \<tau>l)
         \<and> httpCode appErr = (if names_absence e then 404 else 500)))
   \<and> (DeleteObjectWithContext (Client b)
      \<lparr>di_Bucket = Bucket b, di_Key = path_Join [Prefix b, path]\<rparr> \<sigma> = (Some e, \<tau>d) \<longrightarrow>
      (\<exists>appErr. S3_DeleteObject b path \<sigma> = (Some appErr, \<tau>d)
         \<and> httpCode appErr = (if names_absence e then 404 else 500)))
   \<and> (CopyObjectWithContext (Client b)
      \<lparr>ci_Bucket = Bucket b,
       ci_CopySource = url_PathEscape (path_Join [Bucket b, Prefix b, srcPath]),
       ci_Key = path_Join [Prefix b, dstPath]\<rparr> \<sigma> = (Some e, \<tau>c) \<longrightarrow>
      (\<exists>appErr. S3_CopyObject b srcPath dstPath \<sigma> = (Some appErr, \<tau>c)
         \<and> httpCode appErr = (if names_absence e then 404 else 500)))"
proof (intro conjI impI)
  assume "GetObjectWithContext (Client b)
      \<lparr>gi_Bucket = Bucket b, gi_Key = path_Join [Prefix b, path]\<rparr> \<sigma> = ((r, Some e), \<tau>g)"
  from S3_GetObject_error [OF this] httpCode_S3_classify [of e S3GetObject]
  show "\<exists>obj appErr. S3_GetObject b path \<sigma> = (Inr (obj, Some appErr), \<tau>g)
         \<and> httpCode appErr = (if names_absence e then 404 else 500)"
    by blast
next
  assume "ListObjectsWithContext (Client b) s3Input \<sigma> = ((r', Some e), \<tau>l)"
  from S3_GetObjects_loop_error [OF this] httpCode_S3_classify [of e S3GetObjects]
  show "\<exists>appErr. S3_GetObjects_loop b fullPrefix s3Input objects \<sigma>
                   = Some (Inr (objects, Some appErr), \<tau>l)
         \<and> httpCode appErr = (if names_absence e then 404 else 500)"
    by blast
next
  assume "DeleteObjectWithContext (Client b)
      \<lparr>di_Bucket = Bucket b, di_Key = path_Join [Prefix b, path]\<rparr> \<sigma> = (Some e, \<tau>d)"
  from S3_DeleteObject_error [OF this] httpCode_S3_classify [of e S3DeleteObject]
  show "\<exists>appErr. S3_DeleteObject b path \<sigma> = (Some appErr, \<tau>d)
         \<and> httpCode appErr = (if names_absence e then 404 else 500)"
    by blast
next
  assume "CopyObjectWithContext (Client b)
      \<lparr>ci_Bucket = Bucket b,
       ci_CopySource = url_PathEscape (path_Join [Bucket b, Prefix b, srcPath]),
       ci_Key = path_Join [Prefix b, dstPath]\<rparr> \<sigma> = (Some e, \<tau>c)"
  from S3_CopyObject_error [OF this] httpCode_S3_classify [of e S3CopyObject]
  show "\<exists>appErr. S3_CopyObject b srcPath dstPath \<sigma> = (Some appErr, \<tau>c)
         \<and> httpCode appErr = (if names_absence e then 404 else 500)"
    by blast
qed

text \<open>A client that refuses every call with \<open>NoSuchKey: gone\<close>: all four are 404.\<close>

theorem S3_not_found_by_error_text_witness:
  "(\<exists>obj appErr.
      S3_GetObject (recording_S3Backend ''bkt'' ''data'' ''NoSuchKey: gone'') ''a.txt'' []
        = (Inr (obj, Some appErr), [GetObject \<lparr>gi_Bucket = ''bkt'', gi_Key = ''data/a.txt''\<rparr>])
      \<and> httpCode appErr = 404)
   \<and> (\<exists>appErr.
      S3_GetObjects_loop (recording_S3Backend ''bkt'' ''data'' ''NoSuchKey: gone'') ''data''
          \<lparr>li_Bucket = ''bkt'', li_Prefix = ''data'', li_Marker = None\<rparr> [] []
        = Some (Inr ([], Some appErr),
                [ListObjects \<lparr>li_Bucket = ''bkt'', li_Prefix = ''data'', li_Marker = None\<rparr>])
      \<and> httpCode appErr = 404)
   \<and> (\<exists>appErr.
      S3_DeleteObject (recording_S3Backend ''bkt'' ''data'' ''NoSuchKey: gone'') ''a.txt'' []
        = (Some appErr, [DeleteObject \<lparr>di_Bucket = ''bkt'', di_Key = ''data/a.txt''\<rparr>])
      \<and> httpCode appErr = 404)
   \<and> (\<exists>appErr.
      S3_CopyObject (recording_S3Backend ''bkt'' ''data'' ''NoSuchKey: gone'') ''a.txt'' ''b.txt'' []
        = (Some appErr, [CopyObject \<lparr>ci_Bucket = ''bkt'', ci_CopySource = ''bkt%2Fdata%2Fa.txt'',
                                       ci_Key = ''data/b.txt''\<rparr>])
      \<and> httpCode appErr = 404)"
proof -
  have j: "path_Clean ''data/a.txt'' = ''data/a.txt''"
    "path_Clean ''data/b.txt'' = ''data/b.txt''"
    "url_PathEscape (path_Clean ''bkt/data/a.txt'') = ''bkt%2Fdata%2Fa.txt''"
    by (simp_all add: path_Clean_def clean_elem_def shouldEscape_def)
  have n: "names_absence ''NoSuchKey: gone''"
    by (simp add: names_absence_def sublist_code)
  show ?thesis
    using S3_not_found_by_error_text
      [where b = "recording_S3Backend ''bkt'' ''data'' ''NoSuchKey: gone''"
         and path = "''a.txt''" and srcPath = "''a.txt''" and dstPath = "''b.txt''"
         and \<sigma> = "[]" and e = "''NoSuchKey: gone''" and r = None and r' = None
         and s3Input = "\<lparr>li_Bucket = ''bkt'', li_Prefix = ''data'', li_Marker = None\<rparr>"
         and fullPrefix = "''data''" and objects = "[]"
         and \<tau>g = "[GetObject \<lparr>gi_Bucket = ''bkt'', gi_Key = ''data/a.txt''\<rparr>]"
         and \<tau>l = "[ListObjects \<lparr>li_Bucket = ''bkt'', li_Prefix = ''data'', li_Marker = None\<rparr>]"
         and \<tau>d = "[DeleteObject \<lparr>di_Bucket = ''bkt'', di_Key = ''data/a.txt''\<rparr>]"
         and \<tau>c = "[CopyObject \<lparr>ci_Bucket = ''bkt'', ci_CopySource = ''bkt%2Fdata%2Fa.txt'',
                                  ci_Key = ''data/b.txt''\<rparr>]"]
    by (simp add: recording_S3Backend_fields j n)
qed

text \<open>
  \<^bold>\<open>C2\<close> does not hold for every sequence of pages: after a truncated page without
  entries no request follows and no slice is returned, although a page that is not
  truncated was still to come, and an entry whose \<^verbatim>\<open>Key\<close> is nil ends the call in the
  same way.
\<close>

theorem S3_GetObjects_marker_pagination_counterexample:
  "S3_GetObjects (scripted_S3Backend ''bkt'' ''data'') ''logs''
     \<lparr>pending =
        [(Some \<lparr>Contents = [\<lparr>s3_Key = Some ''data/logs/a'', s3_LastModified = Some 1\<rparr>],
                IsTruncated = Some True\<rparr>, None),
         (Some \<lparr>Contents = [], IsTruncated = Some True\<rparr>, None),
         (Some \<lparr>Contents = [\<lparr>s3_Key = Some ''data/logs/c'', s3_LastModified = Some 3\<rparr>],
                IsTruncated = Some False\<rparr>, None)],
      received = []\<rparr> =
   Some (Inl IndexOutOfRange,
         \<lparr>pending =
            [(Some \<lparr>Contents = [\<lparr>s3_Key = Some ''data/logs/c'', s3_LastModified = Some 3\<rparr>],
                    IsTruncated = Some False\<rparr>, None)],
          received = [\<lparr>li_Bucket = ''bkt'', li_Prefix = ''data/logs'', li_Marker = None\<rparr>,
                      \<lparr>li_Bucket = ''bkt'', li_Prefix = ''data/logs'',
                       li_Marker = Some ''data/logs/a''\<rparr>]\<rparr>)
   \<and> S3_GetObjects (scripted_S3Backend ''bkt'' ''data'') ''logs''
     \<lparr>pending =
        [(Some \<lparr>Contents = [\<lparr>s3_Key = None, s3_LastModified = Some 1\<rparr>],
                IsTruncated = Some False\<rparr>, None)],
      received = []\<rparr> =
   Some (Inl NilPointerDereference,
         \<lparr>pending = [],
          received = [\<lparr>li_Bucket = ''bkt'', li_Prefix = ''data/logs'', li_Marker = None\<rparr>]\<rparr>)"
proof (intro conjI)
  have one: "S3_GetObjects_loop (scripted_S3Backend ''bkt'' ''data'') ''data/logs''
          \<lparr>li_Bucket = ''bkt'', li_Prefix = ''data/logs'', li_Marker = None\<rparr> []
          \<lparr>pending =
             [(Some \<lparr>Contents = [\<lparr>s3_Key = Some ''data/logs/a'', s3_LastModified = Some 1\<rparr>],
                     IsTruncated = Some True\<rparr>, None),
              (Some \<lparr>Contents = [], IsTruncated = Some True\<rparr>, None),
              (Some \<lparr>Contents = [\<lparr>s3_Key = Some ''data/logs/c'', s3_LastModified = Some 3\<rparr>],
                     IsTruncated = Some False\<rparr>, None)],
           received = []\<rparr> =
        S3_GetObjects_loop (scripted_S3Backend ''bkt'' ''data'') ''data/logs''
          \<lparr>li_Bucket = ''bkt'', li_Prefix = ''data/logs'', li_Marker = Some ''data/logs/a''\<rparr>
          ([] @ Objects_of_Contents ''data/logs''
                  [\<lparr>s3_Key = Some ''data/logs/a'', s3_LastModified = Some 1\<rparr>])
          \<lparr>pending =
             [(Some \<lparr>Contents = [], IsTruncated = Some True\<rparr>, None),
              (Some \<lparr>Contents = [\<lparr>s3_Key = Some ''data/logs/c'', s3_LastModified = Some 3\<rparr>],
                     IsTruncated = Some False\<rparr>, None)],
           received = [] @ [\<lparr>li_Bucket = ''bkt'', li_Prefix = ''data/logs'', li_Marker = None\<rparr>]\<rparr>"
    using S3_GetObjects_loop_more
      [OF scripted_ListObjects,
       where out = "\<lparr>Contents = [\<lparr>s3_Key = Some ''data/logs/a'', s3_LastModified = Some 1\<rparr>],
                      IsTruncated = Some True\<rparr>"]
    by (simp add: entries_complete_def)
  have two: "S3_GetObjects_loop (scripted_S3Backend ''bkt'' ''data'') ''data/logs''
          \<lparr>li_Bucket = ''bkt'', li_Prefix = ''data/logs'', li_Marker = Some ''data/logs/a''\<rparr>
          ([] @ Objects_of_Contents ''data/logs''
                  [\<lparr>s3_Key = Some ''data/logs/a'', s3_LastModified = Some 1\<rparr>])
          \<lparr>pending =
             [(Some \<lparr>Contents = [], IsTruncated = Some True\<rparr>, None),
              (Some \<lparr>Contents = [\<lparr>s3_Key = Some ''data/logs/c'', s3_LastModified = Some 3\<rparr>],
                     IsTruncated = Some False\<rparr>, None)],
           received = [] @ [\<lparr>li_Bucket = ''bkt'', li_Prefix = ''data/logs'', li_Marker = None\<rparr>]\<rparr> =
        Some (Inl IndexOutOfRange,
          \<lparr>pending =
             [(Some \<lparr>Contents = [\<lparr>s3_Key = Some ''data/logs/c'', s3_LastModified = Some 3\<rparr>],
                     IsTruncated = Some False\<rparr>, None)],
           received = ([] @ [\<lparr>li_Bucket = ''bkt'', li_Prefix = ''data/logs'', li_Marker = None\<rparr>])
                      @ [\<lparr>li_Bucket = ''bkt'', li_Prefix = ''data/logs'',
                          li_Marker = Some ''data/logs/a''\<rparr>]\<rparr>)"
    by (rule S3_GetObjects_loop_out_of_range [OF scripted_ListObjects]) simp_all
  from one two
  show "S3_GetObjects (scripted_S3Backend ''bkt'' ''data'') ''logs''
     \<lparr>pending =
        [(Some \<lparr>Contents = [\<lparr>s3_Key = Some ''data/logs/a'', s3_LastModified = Some 1\<rparr>],
                IsTruncated = Some True\<rparr>, None),
         (Some \<lparr>Contents = [], IsTruncated = Some True\<rparr>, None),
         (Some \<lparr>Contents = [\<lparr>s3_Key = Some ''data/logs/c'', s3_LastModified = Some 3\<rparr>],
                IsTruncated = Some False\<rparr>, None)],
      received = []\<rparr> =
   Some (Inl IndexOutOfRange,
         \<lparr>pending =
            [(Some \<lparr>Contents = [\<lparr>s3_Key = Some ''data/logs/c'', s3_LastModified = Some 3\<rparr>],
                    IsTruncated = Some False\<rparr>, None)],
          received = [\<lparr>li_Bucket = ''bkt'', li_Prefix = ''data/logs'', li_Marker = None\<rparr>,
                      \<lparr>li_Bucket = ''bkt'', li_Prefix = ''data/logs'',
                       li_Marker = Some ''data/logs/a''\<rparr>]\<rparr>)"
    by (simp add: S3_GetObjects_def Let_def scripted_S3Backend_fields path_Clean_data_logs)
next
  have "S3_GetObjects_loop (scripted_S3Backend ''bkt'' ''data'') ''data/logs''
          \<lparr>li_Bucket = ''bkt'', li_Prefix = ''data/logs'', li_Marker = None\<rparr> []
          \<lparr>pending =
             [(Some \<lparr>Contents = [\<lparr>s3_Key = None, s3_LastModified = Some 1\<rparr>],
                     IsTruncated = Some False\<rparr>, None)],
           received = []\<rparr> =
        Some (Inl NilPointerDereference,
          \<lparr>pending = [],
           received = [] @ [\<lparr>li_Bucket = ''bkt'', li_Prefix = ''data/logs'', li_Marker = None\<rparr>]\<rparr>)"
    by (rule S3_GetObjects_loop_nil_entry [OF scripted_ListObjects]) simp
  then show "S3_GetObjects (scripted_S3Backend ''bkt'' ''data'') ''logs''
     \<lparr>pending =
        [(Some \<lparr>Contents = [\<lparr>s3_Key = None, s3_LastModified = Some 1\<rparr>],
                IsTruncated = Some False\<rparr>, None)],
      received = []\<rparr> =
   Some (Inl NilPointerDereference,
         \<lparr>pending = [],
          received = [\<lparr>li_Bucket = ''bkt'', li_Prefix = ''data/logs'', li_Marker = None\<rparr>]\<rparr>)"
    by (simp add: S3_GetObjects_def Let_def scripted_S3Backend_fields path_Clean_data_logs)
qed

text \<open>
  \<^bold>\<open>C2\<close>, amended. Let the client answer the list requests of \<^verbatim>\<open>GetObjects\<close> with the
  pages \<open>ps\<close>, all truncated and not empty, then with a page \<open>q\<close> whose \<^verbatim>\<open>IsTruncated\<close> is
  nil or false, no entry of a page having a nil \<^verbatim>\<open>Key\<close> or \<^verbatim>\<open>LastModified\<close>. The first
  request has no marker, the request after each page of \<open>ps\<close> has the last key of that
  page as its marker, no request follows \<open>q\<close>, whatever the client would have answered
  then, and the result is the concatenation, in order, of the Objects of all the pages.
\<close>

theorem S3_GetObjects_marker_pagination:
  assumes "list_all full_page ps"
    and "entries_complete (Contents q)"
    and "IsTruncated q \<noteq> Some True"
  shows "S3_GetObjects (scripted_S3Backend bucket pfx) listed
           \<lparr>pending = map (\<lambda>p. (Some p, None)) (ps @ [q]) @ rest, received = []\<rparr> =
         Some (Inr (concat (map (\<lambda>p. Objects_of_Contents (path_Join [pfx, listed]) (Contents p))
                            (ps @ [q])), None),
               \<lparr>pending = rest,
                received =
                  \<lparr>li_Bucket = bucket, li_Prefix = path_Join [pfx, listed], li_Marker = None\<rparr>
                  # map (\<lambda>p. \<lparr>li_Bucket = bucket, li_Prefix = path_Join [pfx, listed],
                               li_Marker = s3_Key (last (Contents p))\<rparr>) ps\<rparr>)"
  using scripted_pages_then_last [OF assms, of bucket pfx "path_Join [pfx, listed]"
          "\<lparr>li_Bucket = bucket, li_Prefix = path_Join [pfx, listed], li_Marker = None\<rparr>"
          "[]" rest "[]"]
  by (simp add: S3_GetObjects_def Let_def scripted_S3Backend_fields del: path_Join.simps)

text \<open>Two pages under the prefix \<open>data\<close>, listed at \<open>logs\<close>.\<close>

theorem S3_GetObjects_marker_pagination_witness:
  "S3_GetObjects (scripted_S3Backend ''bkt'' ''data'') ''logs''
     \<lparr>pending =
        [(Some \<lparr>Contents = [\<lparr>s3_Key = Some ''data/logs/a'', s3_LastModified = Some 1\<rparr>,
                            \<lparr>s3_Key = Some ''data/logs/b'', s3_LastModified = Some 2\<rparr>],
                IsTruncated = Some True\<rparr>, None),
         (Some \<lparr>Contents = [\<lparr>s3_Key = Some ''data/logs/c'', s3_LastModified = Some 3\<rparr>],
                IsTruncated = Some False\<rparr>, None)],
      received = []\<rparr> =
   Some (Inr ([\<lparr>Meta = \<lparr>Name = [], Version = []\<rparr>, Path = ''a'', Content = [], LastModified = 1\<rparr>,
               \<lparr>Meta = \<lparr>Name = [], Version = []\<rparr>, Path = ''b'', Content = [], LastModified = 2\<rparr>,
               \<lparr>Meta = \<lparr>Name = [], Version = []\<rparr>, Path = ''c'', Content = [], LastModified = 3\<rparr>],
              None),
         \<lparr>pending = [],
          received = [\<lparr>li_Bucket = ''bkt'', li_Prefix = ''data/logs'', li_Marker = None\<rparr>,
                      \<lparr>li_Bucket = ''bkt'', li_Prefix = ''data/logs'',
                       li_Marker = Some ''data/logs/b''\<rparr>]\<rparr>)"
  using S3_GetObjects_marker_pagination
    [of "[\<lparr>Contents = [\<lparr>s3_Key = Some ''data/logs/a'', s3_LastModified = Some 1\<rparr>,
                        \<lparr>s3_Key = Some ''data/logs/b'', s3_LastModified = Some 2\<rparr>],
            IsTruncated = Some True\<rparr>]"
        "\<lparr>Contents = [\<lparr>s3_Key = Some ''data/logs/c'', s3_LastModified = Some 3\<rparr>],
          IsTruncated = Some False\<rparr>"
        "''bkt''" "''data''" "''logs''" "[]"]
  by (simp add: full_page_def entries_complete_def Objects_of_Contents_def
        removePrefixFromObjectPath_def path_Clean_data_logs)

text \<open>
  \<^bold>\<open>C7\<close>. When the request for a page (S3) or a step of the iterator (Cloud Storage)
  fails during \<^verbatim>\<open>GetObjects\<close>, the call returns at once, with the error and with the
  Objects of all the pages or steps before: nothing is dropped, and the client is not
  asked again.
\<close>

theorem listing_failure_keeps_partial_result:
  "(list_all full_page ps \<longrightarrow>
      S3_GetObjects (scripted_S3Backend bucket pfx) listed
        \<lparr>pending = map (\<lambda>p. (Some p, None)) ps @ (r, Some e) # rest, received = []\<rparr> =
      Some (Inr (concat (map (\<lambda>p. Objects_of_Contents (path_Join [pfx, listed]) (Contents p)) ps),
                 Some (S3_classify e S3GetObjects)),
            \<lparr>pending = rest,
             received =
               \<lparr>li_Bucket = bucket, li_Prefix = path_Join [pfx, listed], li_Marker = None\<rparr>
               # map (\<lambda>p. \<lparr>li_Bucket = bucket, li_Prefix = path_Join [pfx, listed],
                            li_Marker = s3_Key (last (Contents p))\<rparr>) ps\<rparr>))
   \<and> GCS_GetObjects (scripted_GCSBackend pfx) listed (map Attrs as @ Failed e # rest') =
       Some ((Objects_of_Attrs (path_Join [pfx, listed]) as,
              Some (GCS_classify e GCSGetObjects)), rest')"
proof (intro conjI impI)
  assume ps: "list_all full_page ps"
  show "S3_GetObjects (scripted_S3Backend bucket pfx) listed
        \<lparr>pending = map (\<lambda>p. (Some p, None)) ps @ (r, Some e) # rest, received = []\<rparr> =
      Some (Inr (concat (map (\<lambda>p. Objects_of_Contents (path_Join [pfx, listed]) (Contents p)) ps),
                 Some (S3_classify e S3GetObjects)),
            \<lparr>pending = rest,
             received =
               \<lparr>li_Bucket = bucket, li_Prefix = path_Join [pfx, listed], li_Marker = None\<rparr>
               # map (\<lambda>p. \<lparr>li_Bucket = bucket, li_Prefix = path_Join [pfx, listed],
                            li_Marker = s3_Key (last (Contents p))\<rparr>) ps\<rparr>)"
    using scripted_pages_then_error [OF ps, of bucket pfx "path_Join [pfx, listed]"
          "\<lparr>li_Bucket = bucket, li_Prefix = path_Join [pfx, listed], li_Marker = None\<rparr>"
          "[]" r e rest "[]"]
    by (simp add: S3_GetObjects_def Let_def scripted_S3Backend_fields del: path_Join.simps)
next
  show "GCS_GetObjects (scripted_GCSBackend pfx) listed (map Attrs as @ Failed e # rest') =
       Some ((Objects_of_Attrs (path_Join [pfx, listed]) as,
              Some (GCS_classify e GCSGetObjects)), rest')"
    using scripted_items_then_error [of pfx "path_Join [pfx, listed]" "[]" as e rest']
    by (simp add: GCS_GetObjects_def Let_def scripted_Iterator_Next del: path_Join.simps)
qed

text \<open>A time-out after one page, and after one step of the iterator.\<close>

theorem listing_failure_keeps_partial_result_witness:
  "S3_GetObjects (scripted_S3Backend ''bkt'' ''data'') ''logs''
     \<lparr>pending =
        [(Some \<lparr>Contents = [\<lparr>s3_Key = Some ''data/logs/a'', s3_LastModified = Some 1\<rparr>],
                IsTruncated = Some True\<rparr>, None),
         (None, Some ''RequestTimeout''),
         (Some \<lparr>Contents = [\<lparr>s3_Key = Some ''data/logs/c'', s3_LastModified = Some 3\<rparr>],
                IsTruncated = Some False\<rparr>, None)],
      received = []\<rparr> =
   Some (Inr ([\<lparr>Meta = \<lparr>Name = [], Version = []\<rparr>, Path = ''a'', Content = [], LastModified = 1\<rparr>],
              Some \<lparr>appCause = ''RequestTimeout'', appCustom = S3GetObjects, httpCode = 500\<rparr>),
         \<lparr>pending =
            [(Some \<lparr>Contents = [\<lparr>s3_Key = Some ''data/logs/c'', s3_LastModified = Some 3\<rparr>],
                    IsTruncated = Some False\<rparr>, None)],
          received = [\<lparr>li_Bucket = ''bkt'', li_Prefix = ''data/logs'', li_Marker = None\<rparr>,
                      \<lparr>li_Bucket = ''bkt'', li_Prefix = ''data/logs'',
                       li_Marker = Some ''data/logs/a''\<rparr>]\<rparr>)
   \<and> GCS_GetObjects (scripted_GCSBackend ''data'') ''logs''
       [Attrs \<lparr>attrs_Name = ''data/logs/a'', attrs_Updated = 1\<rparr>, Failed ''RequestTimeout'',
        Attrs \<lparr>attrs_Name = ''data/logs/c'', attrs_Updated = 3\<rparr>] =
     Some (([\<lparr>Meta = \<lparr>Name = [], Version = []\<rparr>, Path = ''a'', Content = [], LastModified = 1\<rparr>],
            Some \<lparr>appCause = ''RequestTimeout'', appCustom = GCSGetObjects, httpCode = 500\<rparr>),
           [Attrs \<lparr>attrs_Name = ''data/logs/c'', attrs_Updated = 3\<rparr>])"
proof -
  have n: "\<not> names_absence ''RequestTimeout''"
    by (simp add: names_absence_def sublist_code)
  have g: "''RequestTimeout'' \<noteq> ErrObjectNotExist"
    by (simp add: ErrObjectNotExist_def)
  show ?thesis
    using listing_failure_keeps_partial_result
      [of "[\<lparr>Contents = [\<lparr>s3_Key = Some ''data/logs/a'', s3_LastModified = Some 1\<rparr>],
              IsTruncated = Some True\<rparr>]"
          "''bkt''" "''data''" "''logs''" None "''RequestTimeout''"
          "[(Some \<lparr>Contents = [\<lparr>s3_Key = Some ''data/logs/c'', s3_LastModified = Some 3\<rparr>],
                    IsTruncated = Some False\<rparr>, None)]"
          "[\<lparr>attrs_Name = ''data/logs/a'', attrs_Updated = 1\<rparr>]"
          "[Attrs \<lparr>attrs_Name = ''data/logs/c'', attrs_Updated = 3\<rparr>]"]
    by (simp add: full_page_def entries_complete_def Objects_of_Contents_def Objects_of_Attrs_def
          removePrefixFromObjectPath_def path_Clean_data_logs S3_classify_def GCS_classify_def
          isS3NotFoundError_iff n g GetAppErr_def StatusInternalServerError_def)
qed

text \<open>
  \<^bold>\<open>C9\<close>. In \<^verbatim>\<open>GetObjects\<close> of the S3 adapter the marker is taken from the last entry
  of a page only when the page is truncated. A truncated page without entries makes the
  index \<^verbatim>\<open>len(Contents)-1\<close> leave the range, whatever the client: the call panics. A page
  that is not truncated ends the call without that access. When every truncated page of
  the client's responses has an entry, the call returns and the index never leaves the
  range. The last part is one such run.
\<close>

theorem S3_GetObjects_marker_index:
  "(ListObjectsWithContext (Client b) s3Input \<sigma> = ((Some out, None), \<tau>) \<longrightarrow>
      IsTruncated out = Some True \<longrightarrow> Contents out = [] \<longrightarrow>
      S3_GetObjects_loop b fullPrefix s3Input objects \<sigma> = Some (Inl IndexOutOfRange, \<tau>))
   \<and> (ListObjectsWithContext (Client b) s3Input \<sigma>' = ((Some out', None), \<tau>') \<longrightarrow>
      IsTruncated out' \<noteq> Some True \<longrightarrow>
      (\<exists>r. S3_GetObjects_loop b fullPrefix s3Input objects \<sigma>' = Some (r, \<tau>')
           \<and> r \<noteq> Inl IndexOutOfRange))
   \<and> (list_all safe_response script \<longrightarrow>
      (\<exists>r \<upsilon>. S3_GetObjects (scripted_S3Backend bucket pfx) listed
                  \<lparr>pending = script, received = []\<rparr> = Some (r, \<upsilon>)
             \<and> r \<noteq> Inl IndexOutOfRange))
   \<and> S3_GetObjects (scripted_S3Backend ''bkt'' ''data'') ''logs''
         \<lparr>pending = [(Some \<lparr>Contents = [], IsTruncated = Some True\<rparr>, None)], received = []\<rparr> =
       Some (Inl IndexOutOfRange,
             \<lparr>pending = [],
              received = [\<lparr>li_Bucket = ''bkt'', li_Prefix = ''data/logs'', li_Marker = None\<rparr>]\<rparr>)"
proof (intro conjI impI)
  assume "ListObjectsWithContext (Client b) s3Input \<sigma> = ((Some out, None), \<tau>)"
    "IsTruncated out = Some True" "Contents out = []"
  then show "S3_GetObjects_loop b fullPrefix s3Input objects \<sigma> = Some (Inl IndexOutOfRange, \<tau>)"
    by (rule S3_GetObjects_loop_out_of_range)
next
  assume "ListObjectsWithContext (Client b) s3Input \<sigma>' = ((Some out', None), \<tau>')"
    "IsTruncated out' \<noteq> Some True"
  then show "\<exists>r. S3_GetObjects_loop b fullPrefix s3Input objects \<sigma>' = Some (r, \<tau>')
           \<and> r \<noteq> Inl IndexOutOfRange"
    by (rule S3_GetObjects_loop_not_truncated)
next
  assume "list_all safe_response script"
  from scripted_run_in_bounds [OF this]
  show "\<exists>r \<upsilon>. S3_GetObjects (scripted_S3Backend bucket pfx) listed
                  \<lparr>pending = script, received = []\<rparr> = Some (r, \<upsilon>)
             \<and> r \<noteq> Inl IndexOutOfRange"
    by (simp add: S3_GetObjects_def Let_def del: path_Join.simps)
next
  show "S3_GetObjects (scripted_S3Backend ''bkt'' ''data'') ''logs''
         \<lparr>pending = [(Some \<lparr>Contents = [], IsTruncated = Some True\<rparr>, None)], received = []\<rparr> =
       Some (Inl IndexOutOfRange,
             \<lparr>pending = [],
              received = [\<lparr>li_Bucket = ''bkt'', li_Prefix = ''data/logs'', li_Marker = None\<rparr>]\<rparr>)"
  proof -
    have "S3_GetObjects_loop (scripted_S3Backend ''bkt'' ''data'') ''data/logs''
            \<lparr>li_Bucket = ''bkt'', li_Prefix = ''data/logs'', li_Marker = None\<rparr> []
            \<lparr>pending = [(Some \<lparr>Contents = [], IsTruncated = Some True\<rparr>, None)], received = []\<rparr> =
          Some (Inl IndexOutOfRange,
                \<lparr>pending = [],
                 received = [] @ [\<lparr>li_Bucket = ''bkt'', li_Prefix = ''data/logs'',
                                  li_Marker = None\<rparr>]\<rparr>)"
      by (rule S3_GetObjects_loop_out_of_range [OF scripted_ListObjects]) simp_all
    then show ?thesis
      by (simp add: S3_GetObjects_def Let_def scripted_S3Backend_fields path_Clean_data_logs)
  qed
qed

text \<open>A truncated empty page, an empty last page, and a script of two pages.\<close>

theorem S3_GetObjects_marker_index_witness:
  "S3_GetObjects_loop (scripted_S3Backend ''bkt'' ''data'') ''data/logs''
      \<lparr>li_Bucket = ''bkt'', li_Prefix = ''data/logs'', li_Marker = None\<rparr> []
      \<lparr>pending = [(Some \<lparr>Contents = [], IsTruncated = Some True\<rparr>, None)], received = []\<rparr> =
    Some (Inl IndexOutOfRange,
          \<lparr>pending = [],
           received = [\<lparr>li_Bucket = ''bkt'', li_Prefix = ''data/logs'', li_Marker = None\<rparr>]\<rparr>)
   \<and> (\<exists>r. S3_GetObjects_loop (scripted_S3Backend ''bkt'' ''data'') ''data/logs''
            \<lparr>li_Bucket = ''bkt'', li_Prefix = ''data/logs'', li_Marker = None\<rparr> []
            \<lparr>pending = [(Some \<lparr>Contents = [], IsTruncated = Some False\<rparr>, None)], received = []\<rparr> =
          Some (r, \<lparr>pending = [],
                    received = [\<lparr>li_Bucket = ''bkt'', li_Prefix = ''data/logs'',
                                 li_Marker = None\<rparr>]\<rparr>)
        \<and> r \<noteq> Inl IndexOutOfRange)
   \<and> (\<exists>r \<upsilon>. S3_GetObjects (scripted_S3Backend ''bkt'' ''data'') ''logs''
            \<lparr>pending =
               [(Some \<lparr>Contents = [\<lparr>s3_Key = Some ''data/logs/a'', s3_LastModified = Some 1\<rparr>],
                       IsTruncated = Some True\<rparr>, None),
                (Some \<lparr>Contents = [], IsTruncated = None\<rparr>, None)],
             received = []\<rparr> = Some (r, \<upsilon>)
        \<and> r \<noteq> Inl IndexOutOfRange)"
  using S3_GetObjects_marker_index
    [where b = "scripted_S3Backend ''bkt'' ''data''"
       and s3Input = "\<lparr>li_Bucket = ''bkt'', li_Prefix = ''data/logs'', li_Marker = None\<rparr>"
       and fullPrefix = "''data/logs''" and objects = "[]"
       and \<sigma> = "\<lparr>pending = [(Some \<lparr>Contents = [], IsTruncated = Some True\<rparr>, None)],
                  received = []\<rparr>"
       and out = "\<lparr>Contents = [], IsTruncated = Some True\<rparr>"
       and \<tau> = "\<lparr>pending = [],
                  received = [\<lparr>li_Bucket = ''bkt'', li_Prefix = ''data/logs'', li_Marker = None\<rparr>]\<rparr>"
       and \<sigma>' = "\<lparr>pending = [(Some \<lparr>Contents = [], IsTruncated = Some False\<rparr>, None)],
                   received = []\<rparr>"
       and out' = "\<lparr>Contents = [], IsTruncated = Some False\<rparr>"
       and \<tau>' = "\<lparr>pending = [],
                   received = [\<lparr>li_Bucket = ''bkt'', li_Prefix = ''data/logs'', li_Marker = None\<rparr>]\<rparr>"
       and script = "[(Some \<lparr>Contents = [\<lparr>s3_Key = Some ''data/logs/a'', s3_LastModified = Some 1\<rparr>],
                             IsTruncated = Some True\<rparr>, None),
                      (Some \<lparr>Contents = [], IsTruncated = None\<rparr>, None)]"
       and bucket = "''bkt''" and pfx = "''data''" and listed = "''logs''"]
  by (simp add: scripted_ListObjects safe_response_def)

text \<open>
  \<^bold>\<open>C8\<close>. Every Object that \<^verbatim>\<open>GetObjects\<close> returns has an empty \<^verbatim>\<open>Content\<close>, on both
  adapters and for every client, when the call succeeds and also when it returns an
  error with the Objects listed so far.
\<close>

theorem GetObjects_Content_empty:
  "(S3_GetObjects b listed \<sigma> = Some (Inr (objs, err), \<sigma>') \<longrightarrow> (\<forall>x\<in>set objs. Content x = []))
   \<and> (GCS_GetObjects g listed \<tau> = Some ((objs', err'), \<tau>') \<longrightarrow> (\<forall>x\<in>set objs'. Content x = []))"
proof (intro conjI impI)
  assume "S3_GetObjects b listed \<sigma> = Some (Inr (objs, err), \<sigma>')"
  then have "S3_GetObjects_loop b (path_Join [Prefix b, listed])
               \<lparr>li_Bucket = Bucket b, li_Prefix = path_Join [Prefix b, listed], li_Marker = None\<rparr>
               [] \<sigma> = Some (Inr (objs, err), \<sigma>')"
    by (simp add: S3_GetObjects_def Let_def del: path_Join.simps)
  from S3_GetObjects_loop_Content [OF this] show "\<forall>x\<in>set objs. Content x = []" by simp
next
  assume "GCS_GetObjects g listed \<tau> = Some ((objs', err'), \<tau>')"
  then have "GCS_GetObjects_loop g (path_Join [gcs_Prefix g, listed]) []
               (Objects (gcs_Client g) \<lparr>q_Prefix = path_Join [gcs_Prefix g, listed]\<rparr> \<tau>)
             = Some ((objs', err'), \<tau>')"
    by (simp add: GCS_GetObjects_def Let_def del: path_Join.simps)
  from GCS_GetObjects_loop_Content [OF this] show "\<forall>x\<in>set objs'. Content x = []" by simp
qed

text \<open>One listed object on each adapter.\<close>

theorem GetObjects_Content_empty_witness:
  "S3_GetObjects (scripted_S3Backend ''bkt'' ''data'') ''logs''
     \<lparr>pending =
        [(Some \<lparr>Contents = [\<lparr>s3_Key = Some ''data/logs/a'', s3_LastModified = Some 1\<rparr>],
                IsTruncated = None\<rparr>, None)],
      received = []\<rparr> =
   Some (Inr ([\<lparr>Meta = \<lparr>Name = [], Version = []\<rparr>, Path = ''a'', Content = [], LastModified = 1\<rparr>],
              None),
         \<lparr>pending = [],
          received = [\<lparr>li_Bucket = ''bkt'', li_Prefix = ''data/logs'', li_Marker = None\<rparr>]\<rparr>)
   \<and> map Content [\<lparr>Meta = \<lparr>Name = [], Version = []\<rparr>, Path = ''a'', Content = [],
                     LastModified = 1\<rparr>] = [Nil]
   \<and> GCS_GetObjects (scripted_GCSBackend ''data'') ''logs''
       [Attrs \<lparr>attrs_Name = ''data/logs/a'', attrs_Updated = 1\<rparr>, Done] =
     Some (([\<lparr>Meta = \<lparr>Name = [], Version = []\<rparr>, Path = ''a'', Content = [], LastModified = 1\<rparr>],
            None), [])
   \<and> map Content [\<lparr>Meta = \<lparr>Name = [], Version = []\<rparr>, Path = ''a'', Content = [],
                     LastModified = 1\<rparr>] = [Nil]"
proof -
  have s3: "S3_GetObjects (scripted_S3Backend ''bkt'' ''data'') ''logs''
     \<lparr>pending =
        [(Some \<lparr>Contents = [\<lparr>s3_Key = Some ''data/logs/a'', s3_LastModified = Some 1\<rparr>],
                IsTruncated = None\<rparr>, None)],
      received = []\<rparr> =
   Some (Inr ([\<lparr>Meta = \<lparr>Name = [], Version = []\<rparr>, Path = ''a'', Content = [], LastModified = 1\<rparr>],
              None),
         \<lparr>pending = [],
          received = [\<lparr>li_Bucket = ''bkt'', li_Prefix = ''data/logs'', li_Marker = None\<rparr>]\<rparr>)"
    using scripted_pages_then_last
      [of "[]" "\<lparr>Contents = [\<lparr>s3_Key = Some ''data/logs/a'', s3_LastModified = Some 1\<rparr>],
                 IsTruncated = None\<rparr>"
          "''bkt''" "''data''" "''data/logs''"
          "\<lparr>li_Bucket = ''bkt'', li_Prefix = ''data/logs'', li_Marker = None\<rparr>" "[]" "[]" "[]"]
    by (simp add: S3_GetObjects_def Let_def scripted_S3Backend_fields path_Clean_data_logs
          entries_complete_def Objects_of_Contents_def removePrefixFromObjectPath_def)
  have gcs: "GCS_GetObjects (scripted_GCSBackend ''data'') ''logs''
       [Attrs \<lparr>attrs_Name = ''data/logs/a'', attrs_Updated = 1\<rparr>, Done] =
     Some (([\<lparr>Meta = \<lparr>Name = [], Version = []\<rparr>, Path = ''a'', Content = [], LastModified = 1\<rparr>],
            None), [])"
    using scripted_items_then_done
      [of "''data''" "''data/logs''" "[]" "[\<lparr>attrs_Name = ''data/logs/a'', attrs_Updated = 1\<rparr>]" "[]"]
    by (simp add: GCS_GetObjects_def Let_def scripted_Iterator_Next path_Clean_data_logs
          Objects_of_Attrs_def removePrefixFromObjectPath_def)
  from GetObjects_Content_empty
    [of "scripted_S3Backend ''bkt'' ''data''" "''logs''" _ _ _ _ "scripted_GCSBackend ''data''"]
    s3 gcs
  show ?thesis by simp
qed

text \<open>
  \<^bold>\<open>C1\<close>. With the provider a key-value map that a put updates, on both adapters, for
  every configured prefix, path \<open>p\<close> and content \<open>c\<close>: \<^verbatim>\<open>PutObject(p, c)\<close> succeeds and
  leaves \<open>c\<close> under the key \<^verbatim>\<open>Join(Prefix, p)\<close>, and the \<^verbatim>\<open>GetObject(p)\<close> that follows
  reads that key and returns an Object with the path \<open>p\<close> and the content \<open>c\<close>.
\<close>

theorem PutObject_GetObject_round_trip:
  "(\<exists>\<sigma>' obj.
      S3_PutObject (kv_S3Backend bucket pfx) p c \<sigma> = (None, \<sigma>')
      \<and> map_of (stored \<sigma>') (path_Join [pfx, p]) = Some (c, clock \<sigma>)
      \<and> S3_GetObject (kv_S3Backend bucket pfx) p \<sigma>' = (Inr (obj, None), \<sigma>')
      \<and> Path obj = p \<and> Content obj = c)
   \<and> (\<exists>\<tau>' obj.
      GCS_PutObject (kv_GCSBackend pfx) p c \<tau> = (None, \<tau>')
      \<and> map_of (g_stored \<tau>') (path_Join [pfx, p]) = Some (c, g_clock \<tau>)
      \<and> GCS_GetObject (kv_GCSBackend pfx) p \<tau>' = ((obj, None), \<tau>')
      \<and> Path obj = p \<and> Content obj = c)"
proof (intro conjI)
  define \<sigma>' where "\<sigma>' = \<lparr>stored = (path_Join [pfx, p], c, clock \<sigma>)
                         # filter (\<lambda>e. fst e \<noteq> path_Join [pfx, p]) (stored \<sigma>),
              clock = clock \<sigma> + 1\<rparr>"
  have put: "S3_PutObject (kv_S3Backend bucket pfx) p c \<sigma> = (None, \<sigma>')"
    unfolding \<sigma>'_def by (rule kv_S3_PutObject)
  have m: "map_of (stored \<sigma>') (path_Join [pfx, p]) = Some (c, clock \<sigma>)"
    by (simp add: \<sigma>'_def del: path_Join.simps)
  from kv_S3_GetObject_stored [OF m, of bucket] put m
  show "\<exists>\<sigma>' obj.
      S3_PutObject (kv_S3Backend bucket pfx) p c \<sigma> = (None, \<sigma>')
      \<and> map_of (stored \<sigma>') (path_Join [pfx, p]) = Some (c, clock \<sigma>)
      \<and> S3_GetObject (kv_S3Backend bucket pfx) p \<sigma>' = (Inr (obj, None), \<sigma>')
      \<and> Path obj = p \<and> Content obj = c"
    by (intro exI [of _ \<sigma>'] exI [of _ "zero_Object\<lparr>Path := p, Content := c, LastModified := clock \<sigma>\<rparr>"])
       simp
next
  define \<tau>' where "\<tau>' = \<tau>\<lparr>g_stored := (path_Join [pfx, p], c, g_clock \<tau>)
                            # filter (\<lambda>e. fst e \<noteq> path_Join [pfx, p]) (g_stored \<tau>),
             g_clock := g_clock \<tau> + 1,
             g_writers := filter (\<lambda>w. fst w \<noteq> path_Join [pfx, p]) (g_writers \<tau>)\<rparr>"
  have put: "GCS_PutObject (kv_GCSBackend pfx) p c \<tau> = (None, \<tau>')"
    unfolding \<tau>'_def by (rule kv_GCS_PutObject)
  have m: "map_of (g_stored \<tau>') (path_Join [pfx, p]) = Some (c, g_clock \<tau>)"
    by (simp add: \<tau>'_def del: path_Join.simps)
  from kv_GCS_GetObject_stored [OF m] put m
  show "\<exists>\<tau>' obj.
      GCS_PutObject (kv_GCSBackend pfx) p c \<tau> = (None, \<tau>')
      \<and> map_of (g_stored \<tau>') (path_Join [pfx, p]) = Some (c, g_clock \<tau>)
      \<and> GCS_GetObject (kv_GCSBackend pfx) p \<tau>' = ((obj, None), \<tau>')
      \<and> Path obj = p \<and> Content obj = c"
    by (intro exI [of _ \<tau>'] exI [of _ "zero_Object\<lparr>Path := p, LastModified := g_clock \<tau>, Content := c\<rparr>"])
       simp
qed

text \<open>
  \<^bold>\<open>C3\<close>. The calls that reach a client. \<^verbatim>\<open>CopyObject\<close> of the Cloud Storage adapter
  names the source and the destination as they were given, whatever the configured
  prefix, which has no influence on the call at all. \<^verbatim>\<open>CopyObject\<close> of the S3 adapter
  and every other operation of both adapters address the provider with the prefix
  joined onto the path. Joining a prefix and a path that are relative and clean puts
  the prefix and a slash before the path, and an empty prefix leaves the path as it is;
  the copy source of the S3 adapter has the bucket before both. The last conjuncts are
  the calls of every operation under the prefix \<open>data\<close>.
\<close>

theorem CopyObject_prefix_asymmetry:
  "snd (GCS_CopyObject (recording_GCSBackend pfx e) srcPath dstPath [])
     = [Call_CopyFromTo srcPath dstPath]
   \<and> GCS_CopyObject \<lparr>gcs_Prefix = pfx, gcs_Client = cl\<rparr> srcPath dstPath \<sigma>
     = GCS_CopyObject \<lparr>gcs_Prefix = pfx', gcs_Client = cl\<rparr> srcPath dstPath \<sigma>
   \<and> snd (S3_CopyObject (recording_S3Backend bucket pfx e) srcPath dstPath [])
     = [CopyObject \<lparr>ci_Bucket = bucket,
                    ci_CopySource = url_PathEscape (path_Join [bucket, pfx, srcPath]),
                    ci_Key = path_Join [pfx, dstPath]\<rparr>]
   \<and> snd (S3_GetObject (recording_S3Backend bucket pfx e) path [])
     = [GetObject \<lparr>gi_Bucket = bucket, gi_Key = path_Join [pfx, path]\<rparr>]
   \<and> map_option snd (S3_GetObjects (recording_S3Backend bucket pfx e) path [])
     = Some [ListObjects \<lparr>li_Bucket = bucket, li_Prefix = path_Join [pfx, path],
                          li_Marker = None\<rparr>]
   \<and> snd (S3_PutObject (recording_S3Backend bucket pfx e) path content [])
     = [Upload \<lparr>ui_Bucket = bucket, ui_Key = path_Join [pfx, path], ui_Body = content\<rparr>]
   \<and> snd (S3_DeleteObject (recording_S3Backend bucket pfx e) path [])
     = [DeleteObject \<lparr>di_Bucket = bucket, di_Key = path_Join [pfx, path]\<rparr>]
   \<and> snd (GCS_GetObject (recording_GCSBackend pfx e) path [])
     = [Call_Attrs (path_Join [pfx, path])]
   \<and> map_option snd (GCS_GetObjects (recording_GCSBackend pfx e) path [])
     = Some [Call_Objects \<lparr>q_Prefix = path_Join [pfx, path]\<rparr>, Call_Next]
   \<and> snd (GCS_PutObject (recording_GCSBackend pfx e) path content [])
     = [Call_NewWriter (path_Join [pfx, path]), Call_Write (path_Join [pfx, path]) content]
   \<and> snd (GCS_DeleteObject (recording_GCSBackend pfx e) path [])
     = [Call_Delete (path_Join [pfx, path])]
   \<and> (plain_path pfx \<longrightarrow> plain_path path \<longrightarrow> path_Join [pfx, path] = pfx @ ''/'' @ path)
   \<and> (plain_path path \<longrightarrow> path_Join [Nil, path] = path)
   \<and> (plain_path bucket \<longrightarrow> plain_path pfx \<longrightarrow> plain_path srcPath \<longrightarrow>
        path_Join [bucket, pfx, srcPath] = bucket @ ''/'' @ pfx @ ''/'' @ srcPath)
   \<and> snd (GCS_CopyObject (recording_GCSBackend ''data'' ''refused'') ''a.txt'' ''b.txt'' [])
     = [Call_CopyFromTo ''a.txt'' ''b.txt'']
   \<and> snd (S3_CopyObject (recording_S3Backend ''bkt'' ''data'' ''refused'') ''a.txt'' ''b.txt'' [])
     = [CopyObject \<lparr>ci_Bucket = ''bkt'', ci_CopySource = ''bkt%2Fdata%2Fa.txt'',
                    ci_Key = ''data/b.txt''\<rparr>]
   \<and> snd (S3_GetObject (recording_S3Backend ''bkt'' ''data'' ''refused'') ''a.txt'' [])
     = [GetObject \<lparr>gi_Bucket = ''bkt'', gi_Key = ''data/a.txt''\<rparr>]
   \<and> map_option snd (S3_GetObjects (recording_S3Backend ''bkt'' ''data'' ''refused'') ''logs'' [])
     = Some [ListObjects \<lparr>li_Bucket = ''bkt'', li_Prefix = ''data/logs'', li_Marker = None\<rparr>]
   \<and> snd (S3_PutObject (recording_S3Backend ''bkt'' ''data'' ''refused'') ''a.txt'' ''hello'' [])
     = [Upload \<lparr>ui_Bucket = ''bkt'', ui_Key = ''data/a.txt'', ui_Body = ''hello''\<rparr>]
   \<and> snd (S3_DeleteObject (recording_S3Backend ''bkt'' ''data'' ''refused'') ''a.txt'' [])
     = [DeleteObject \<lparr>di_Bucket = ''bkt'', di_Key = ''data/a.txt''\<rparr>]
   \<and> snd (GCS_GetObject (recording_GCSBackend ''data'' ''refused'') ''a.txt'' [])
     = [Call_Attrs ''data/a.txt'']
   \<and> map_option snd (GCS_GetObjects (recording_GCSBackend ''data'' ''refused'') ''logs'' [])
     = Some [Call_Objects \<lparr>q_Prefix = ''data/logs''\<rparr>, Call_Next]
   \<and> snd (GCS_PutObject (recording_GCSBackend ''data'' ''refused'') ''a.txt'' ''hello'' [])
     = [Call_NewWriter ''data/a.txt'', Call_Write ''data/a.txt'' ''hello'']
   \<and> snd (GCS_DeleteObject (recording_GCSBackend ''data'' ''refused'') ''a.txt'' [])
     = [Call_Delete ''data/a.txt'']"
proof (intro conjI)
  show "snd (GCS_CopyObject (recording_GCSBackend pfx e) srcPath dstPath [])
     = [Call_CopyFromTo srcPath dstPath]"
    by (simp add: GCS_CopyObject_def Let_def recording_GCSBackend_fields)
  show "GCS_CopyObject \<lparr>gcs_Prefix = pfx, gcs_Client = cl\<rparr> srcPath dstPath \<sigma>
     = GCS_CopyObject \<lparr>gcs_Prefix = pfx', gcs_Client = cl\<rparr> srcPath dstPath \<sigma>"
    by (simp add: GCS_CopyObject_def)
  show "snd (S3_CopyObject (recording_S3Backend bucket pfx e) srcPath dstPath [])
     = [CopyObject \<lparr>ci_Bucket = bucket,
                    ci_CopySource = url_PathEscape (path_Join [bucket, pfx, srcPath]),
                    ci_Key = path_Join [pfx, dstPath]\<rparr>]"
    by (simp add: S3_CopyObject_def Let_def recording_S3Backend_fields del: path_Join.simps)
  show "snd (S3_GetObject (recording_S3Backend bucket pfx e) path [])
     = [GetObject \<lparr>gi_Bucket = bucket, gi_Key = path_Join [pfx, path]\<rparr>]"
    by (simp add: S3_GetObject_def Let_def recording_S3Backend_fields del: path_Join.simps)
  show "map_option snd (S3_GetObjects (recording_S3Backend bucket pfx e) path [])
     = Some [ListObjects \<lparr>li_Bucket = bucket, li_Prefix = path_Join [pfx, path],
                          li_Marker = None\<rparr>]"
    using S3_GetObjects_loop_error [OF recording_S3Backend_fields(3)]
    by (simp add: S3_GetObjects_def Let_def recording_S3Backend_fields del: path_Join.simps)
  show "snd (S3_PutObject (recording_S3Backend bucket pfx e) path content [])
     = [Upload \<lparr>ui_Bucket = bucket, ui_Key = path_Join [pfx, path], ui_Body = content\<rparr>]"
    by (simp add: S3_PutObject_def Let_def recording_S3Backend_fields del: path_Join.simps)
  show "snd (S3_DeleteObject (recording_S3Backend bucket pfx e) path [])
     = [DeleteObject \<lparr>di_Bucket = bucket, di_Key = path_Join [pfx, path]\<rparr>]"
    by (simp add: S3_DeleteObject_def Let_def recording_S3Backend_fields del: path_Join.simps)
  show "snd (GCS_GetObject (recording_GCSBackend pfx e) path [])
     = [Call_Attrs (path_Join [pfx, path])]"
    by (simp add: GCS_GetObject_def Let_def recording_GCSBackend_fields del: path_Join.simps)
  show "map_option snd (GCS_GetObjects (recording_GCSBackend pfx e) path [])
     = Some [Call_Objects \<lparr>q_Prefix = path_Join [pfx, path]\<rparr>, Call_Next]"
    using GCS_GetObjects_loop_error [OF recording_GCSBackend_fields(10)]
    by (simp add: GCS_GetObjects_def Let_def recording_GCSBackend_fields del: path_Join.simps)
  show "snd (GCS_PutObject (recording_GCSBackend pfx e) path content [])
     = [Call_NewWriter (path_Join [pfx, path]), Call_Write (path_Join [pfx, path]) content]"
    by (simp add: GCS_PutObject_def Let_def recording_GCSBackend_fields del: path_Join.simps)
  show "snd (GCS_DeleteObject (recording_GCSBackend pfx e) path [])
     = [Call_Delete (path_Join [pfx, path])]"
    by (simp add: GCS_DeleteObject_def Let_def recording_GCSBackend_fields del: path_Join.simps)
  show "plain_path pfx \<longrightarrow> plain_path path \<longrightarrow> path_Join [pfx, path] = pfx @ ''/'' @ path"
    using path_Join_plain [of pfx path] by blast
  show "plain_path path \<longrightarrow> path_Join [Nil, path] = path"
    using path_Join_empty_prefix [of path] by blast
  show "plain_path bucket \<longrightarrow> plain_path pfx \<longrightarrow> plain_path srcPath \<longrightarrow>
        path_Join [bucket, pfx, srcPath] = bucket @ ''/'' @ pfx @ ''/'' @ srcPath"
    using path_Join_plain3 [of bucket pfx srcPath] by blast
  have j: "path_Clean ''data/b.txt'' = ''data/b.txt''"
    "url_PathEscape (path_Clean ''bkt/data/a.txt'') = ''bkt%2Fdata%2Fa.txt''"
    by (simp_all add: path_Clean_def clean_elem_def shouldEscape_def)
  show "snd (GCS_CopyObject (recording_GCSBackend ''data'' ''refused'') ''a.txt'' ''b.txt'' [])
     = [Call_CopyFromTo ''a.txt'' ''b.txt'']"
    by (simp add: GCS_CopyObject_def Let_def recording_GCSBackend_fields)
  show "snd (S3_CopyObject (recording_S3Backend ''bkt'' ''data'' ''refused'') ''a.txt'' ''b.txt'' [])
     = [CopyObject \<lparr>ci_Bucket = ''bkt'', ci_CopySource = ''bkt%2Fdata%2Fa.txt'',
                    ci_Key = ''data/b.txt''\<rparr>]"
    by (simp add: S3_CopyObject_def Let_def recording_S3Backend_fields j)
  show "snd (S3_GetObject (recording_S3Backend ''bkt'' ''data'' ''refused'') ''a.txt'' [])
     = [GetObject \<lparr>gi_Bucket = ''bkt'', gi_Key = ''data/a.txt''\<rparr>]"
    by (simp add: S3_GetObject_def Let_def recording_S3Backend_fields path_Clean_data_a)
  show "map_option snd (S3_GetObjects (recording_S3Backend ''bkt'' ''data'' ''refused'') ''logs'' [])
     = Some [ListObjects \<lparr>li_Bucket = ''bkt'', li_Prefix = ''data/logs'', li_Marker = None\<rparr>]"
    using S3_GetObjects_loop_error [OF recording_S3Backend_fields(3)]
    by (simp add: S3_GetObjects_def Let_def recording_S3Backend_fields path_Clean_data_logs)
  show "snd (S3_PutObject (recording_S3Backend ''bkt'' ''data'' ''refused'') ''a.txt'' ''hello'' [])
     = [Upload \<lparr>ui_Bucket = ''bkt'', ui_Key = ''data/a.txt'', ui_Body = ''hello''\<rparr>]"
    by (simp add: S3_PutObject_def Let_def recording_S3Backend_fields path_Clean_data_a)
  show "snd (S3_DeleteObject (recording_S3Backend ''bkt'' ''data'' ''refused'') ''a.txt'' [])
     = [DeleteObject \<lparr>di_Bucket = ''bkt'', di_Key = ''data/a.txt''\<rparr>]"
    by (simp add: S3_DeleteObject_def Let_def recording_S3Backend_fields path_Clean_data_a)
  show "snd (GCS_GetObject (recording_GCSBackend ''data'' ''refused'') ''a.txt'' [])
     = [Call_Attrs ''data/a.txt'']"
    by (simp add: GCS_GetObject_def Let_def recording_GCSBackend_fields path_Clean_data_a)
  show "map_option snd (GCS_GetObjects (recording_GCSBackend ''data'' ''refused'') ''logs'' [])
     = Some [Call_Objects \<lparr>q_Prefix = ''data/logs''\<rparr>, Call_Next]"
    using GCS_GetObjects_loop_error [OF recording_GCSBackend_fields(10)]
    by (simp add: GCS_GetObjects_def Let_def recording_GCSBackend_fields path_Clean_data_logs)
  show "snd (GCS_PutObject (recording_GCSBackend ''data'' ''refused'') ''a.txt'' ''hello'' [])
     = [Call_NewWriter ''data/a.txt'', Call_Write ''data/a.txt'' ''hello'']"
    by (simp add: GCS_PutObject_def Let_def recording_GCSBackend_fields path_Clean_data_a)
  show "snd (GCS_DeleteObject (recording_GCSBackend ''data'' ''refused'') ''a.txt'' [])
     = [Call_Delete ''data/a.txt'']"
    by (simp add: GCS_DeleteObject_def Let_def recording_GCSBackend_fields path_Clean_data_a)
qed

text \<open>A prefix, a path of two elements and a bucket.\<close>

theorem CopyObject_prefix_asymmetry_witness:
  "path_Join [''data'', ''logs/a.txt''] = ''data'' @ ''/'' @ ''logs/a.txt''
   \<and> path_Join [Nil, ''logs/a.txt''] = ''logs/a.txt''
   \<and> path_Join [''bkt'', ''data'', ''logs/a.txt''] = ''bkt'' @ ''/'' @ ''data'' @ ''/'' @ ''logs/a.txt''"
  using CopyObject_prefix_asymmetry
    [where pfx = "''data''" and path = "''logs/a.txt''" and bucket = "''bkt''"
       and srcPath = "''logs/a.txt''" and dstPath = "''b.txt''" and e = "''refused''"
       and content = "''hello''" and pfx' = "''other''" and \<sigma> = "[]"
       and cl = "gcs_Client (recording_GCSBackend ''data'' ''refused'')"]
  by (simp add: plain_path_def del: path_Join.simps)

text \<open>
  \<^bold>\<open>C5\<close> does not hold as it is stated: a write that fails with the text of
  \<^verbatim>\<open>storage.ErrObjectNotExist\<close> makes \<^verbatim>\<open>PutObject\<close> of the Cloud Storage adapter answer 404.
\<close>

theorem GCS_PutObject_not_found_counterexample:
  "GCS_PutObject (recording_GCSBackend ''data'' ErrObjectNotExist) ''a.txt'' ''hello'' [] =
     (Some \<lparr>appCause = ErrObjectNotExist, appCustom = GCSPutObject, httpCode = 404\<rparr>,
      [Call_NewWriter ''data/a.txt'', Call_Write ''data/a.txt'' ''hello''])"
  by (simp add: GCS_PutObject_def Let_def recording_GCSBackend_fields path_Clean_data_a
        GetAppErr_def SetHTTPCode_def StatusNotFound_def StatusInternalServerError_def)

text \<open>
  \<^bold>\<open>C5\<close>, amended. An error of the uploader makes \<^verbatim>\<open>PutObject\<close> of the S3 adapter
  return an application error with the code 500, whatever its text. On the Cloud Storage
  adapter an error of closing the writer gives 500; an error of the write gives 404 when
  its text is that of \<^verbatim>\<open>storage.ErrObjectNotExist\<close> and 500 otherwise.
\<close>

theorem PutObject_error_classification:
  "(UploadWithContext (Uploader b)
      \<lparr>ui_Bucket = Bucket b, ui_Key = path_Join [Prefix b, path], ui_Body = content\<rparr> \<sigma>
      = (Some e, \<sigma>') \<longrightarrow>
      (\<exists>appErr. S3_PutObject b path content \<sigma> = (Some appErr, \<sigma>') \<and> httpCode appErr = 500))
   \<and> (Writer_Write (gcs_Client g) (path_Join [gcs_Prefix g, path]) content
        (Object_NewWriter (gcs_Client g) (path_Join [gcs_Prefix g, path]) \<tau>) = (Some e, \<tau>') \<longrightarrow>
      (\<exists>appErr. GCS_PutObject g path content \<tau> = (Some appErr, \<tau>')
         \<and> httpCode appErr = (if e = ErrObjectNotExist then 404 else 500)))
   \<and> (Writer_Write (gcs_Client h) (path_Join [gcs_Prefix h, path]) content
        (Object_NewWriter (gcs_Client h) (path_Join [gcs_Prefix h, path]) \<upsilon>) = (None, \<upsilon>a) \<longrightarrow>
      Writer_Close (gcs_Client h) (path_Join [gcs_Prefix h, path]) \<upsilon>a = (Some e, \<upsilon>b) \<longrightarrow>
      (\<exists>appErr. GCS_PutObject h path content \<upsilon> = (Some appErr, \<upsilon>b) \<and> httpCode appErr = 500))"
proof (intro conjI impI)
  assume "UploadWithContext (Uploader b)
      \<lparr>ui_Bucket = Bucket b, ui_Key = path_Join [Prefix b, path], ui_Body = content\<rparr> \<sigma>
      = (Some e, \<sigma>')"
  then have "S3_PutObject b path content \<sigma> =
               (Some (GetAppErr e S3PutObject StatusInternalServerError), \<sigma>')"
    by (simp add: S3_PutObject_def Let_def del: path_Join.simps)
  then show "\<exists>appErr. S3_PutObject b path content \<sigma> = (Some appErr, \<sigma>') \<and> httpCode appErr = 500"
    by (simp add: GetAppErr_def StatusInternalServerError_def)
next
  assume "Writer_Write (gcs_Client g) (path_Join [gcs_Prefix g, path]) content
        (Object_NewWriter (gcs_Client g) (path_Join [gcs_Prefix g, path]) \<tau>) = (Some e, \<tau>')"
  then have "GCS_PutObject g path content \<tau> = (Some (GCS_classify e GCSPutObject), \<tau>')"
    by (simp add: GCS_PutObject_def Let_def GCS_classify_def del: path_Join.simps)
  with httpCode_GCS_classify [of e GCSPutObject]
  show "\<exists>appErr. GCS_PutObject g path content \<tau> = (Some appErr, \<tau>')
         \<and> httpCode appErr = (if e = ErrObjectNotExist then 404 else 500)"
    by blast
next
  assume "Writer_Write (gcs_Client h) (path_Join [gcs_Prefix h, path]) content
        (Object_NewWriter (gcs_Client h) (path_Join [gcs_Prefix h, path]) \<upsilon>) = (None, \<upsilon>a)"
    "Writer_Close (gcs_Client h) (path_Join [gcs_Prefix h, path]) \<upsilon>a = (Some e, \<upsilon>b)"
  then have "GCS_PutObject h path content \<upsilon> =
               (Some (GetAppErr e GCSPutObject StatusInternalServerError), \<upsilon>b)"
    by (simp add: GCS_PutObject_def Let_def del: path_Join.simps)
  then show "\<exists>appErr. GCS_PutObject h path content \<upsilon> = (Some appErr, \<upsilon>b) \<and> httpCode appErr = 500"
    by (simp add: GetAppErr_def StatusInternalServerError_def)
qed

text \<open>
  An error whose text has \<open>NotFound\<close> in it: 500 from the S3 uploader, from the write
  and from the close.
\<close>

theorem PutObject_error_classification_witness:
  "(\<exists>appErr. S3_PutObject (recording_S3Backend ''bkt'' ''data'' ''NotFound: no such bucket'')
               ''a.txt'' ''hello'' []
             = (Some appErr, [Upload \<lparr>ui_Bucket = ''bkt'', ui_Key = ''data/a.txt'',
                                      ui_Body = ''hello''\<rparr>])
      \<and> httpCode appErr = 500)
   \<and> (\<exists>appErr. GCS_PutObject (recording_GCSBackend ''data'' ''NotFound: no such bucket'') ''a.txt'' ''hello'' []
             = (Some appErr, [Call_NewWriter ''data/a.txt'', Call_Write ''data/a.txt'' ''hello''])
      \<and> httpCode appErr = 500)
   \<and> (\<exists>appErr. GCS_PutObject
               \<lparr>gcs_Prefix = ''data'',
                gcs_Client = (gcs_Client (kv_GCSBackend ''data''))
                  \<lparr>Writer_Close := \<lambda>name \<sigma>. (Some ''NotFound: no such bucket'', \<sigma>)\<rparr>\<rparr>
               ''a.txt'' ''hello''
               \<lparr>g_stored = [], g_clock = 0, g_writers = [], g_iterator = []\<rparr>
             = (Some appErr,
                \<lparr>g_stored = [], g_clock = 0, g_writers = [(''data/a.txt'', ''hello'')],
                 g_iterator = []\<rparr>)
      \<and> httpCode appErr = 500)"
proof -
  have ne: "''NotFound: no such bucket'' \<noteq> ErrObjectNotExist"
    by (simp add: ErrObjectNotExist_def)
  show ?thesis
    using PutObject_error_classification
      [where b = "recording_S3Backend ''bkt'' ''data'' ''NotFound: no such bucket''"
         and path = "''a.txt''" and content = "''hello''" and \<sigma> = "[]"
         and e = "''NotFound: no such bucket''"
         and \<sigma>' = "[Upload \<lparr>ui_Bucket = ''bkt'', ui_Key = ''data/a.txt'', ui_Body = ''hello''\<rparr>]"
         and g = "recording_GCSBackend ''data'' ''NotFound: no such bucket''" and \<tau> = "[]"
         and \<tau>' = "[Call_NewWriter ''data/a.txt'', Call_Write ''data/a.txt'' ''hello'']"
         and h = "\<lparr>gcs_Prefix = ''data'',
                gcs_Client = (gcs_Client (kv_GCSBackend ''data''))
                  \<lparr>Writer_Close := \<lambda>name \<sigma>. (Some ''NotFound: no such bucket'', \<sigma>)\<rparr>\<rparr>"
         and \<upsilon> = "\<lparr>g_stored = [], g_clock = 0, g_writers = [], g_iterator = []\<rparr>"
         and \<upsilon>a = "\<lparr>g_stored = [], g_clock = 0, g_writers = [(''data/a.txt'', ''hello'')],
                      g_iterator = []\<rparr>"
         and \<upsilon>b = "\<lparr>g_stored = [], g_clock = 0, g_writers = [(''data/a.txt'', ''hello'')],
                      g_iterator = []\<rparr>"]
    by (simp add: recording_S3Backend_fields recording_GCSBackend_fields kv_GCSBackend_fields
          path_Clean_data_a ne)
qed

text \<open>
  \<^bold>\<open>C6\<close> does not hold as it is stated: under the configured prefix \<open>data\<close>, the
  object stored at \<open>test/hello.txt\<close> is listed under \<open>test/\<close> with the path \<open>hello.txt\<close>.
\<close>

theorem listing_keeps_listed_prefix_counterexample:
  "S3_GetObjects (kv_S3Backend ''bkt'' ''data'') ''test/''
     (snd (S3_PutObject (kv_S3Backend ''bkt'' ''data'') ''test/hello.txt'' ''Hello, World!''
             \<lparr>stored = [], clock = 0\<rparr>)) =
   Some (Inr ([\<lparr>Meta = \<lparr>Name = [], Version = []\<rparr>, Path = ''hello.txt'', Content = [],
                LastModified = 0\<rparr>], None),
         \<lparr>stored = [(''data/test/hello.txt'', ''Hello, World!'', 0)], clock = 1\<rparr>)"
proof -
  have "S3_GetObjects_loop (kv_S3Backend ''bkt'' ''data'') ''data/test''
          \<lparr>li_Bucket = ''bkt'', li_Prefix = ''data/test'', li_Marker = None\<rparr> []
          \<lparr>stored = [(''data/test/hello.txt'', ''Hello, World!'', 0)], clock = 1\<rparr> =
        Some (Inr ([] @ Objects_of_Contents ''data/test''
                     [\<lparr>s3_Key = Some ''data/test/hello.txt'', s3_LastModified = Some 0\<rparr>], None),
              \<lparr>stored = [(''data/test/hello.txt'', ''Hello, World!'', 0)], clock = 1\<rparr>)"
    by (rule S3_GetObjects_loop_last
          [where out = "\<lparr>Contents = [\<lparr>s3_Key = Some ''data/test/hello.txt'',
                                         s3_LastModified = Some 0\<rparr>],
                         IsTruncated = Some False\<rparr>", simplified])
       (simp_all add: kv_S3Backend_fields entries_complete_def)
  then show ?thesis
    by (simp add: S3_GetObjects_def Let_def kv_S3_PutObject kv_S3Backend_fields
          path_Clean_data_test Objects_of_Contents_def removePrefixFromObjectPath_def)
qed

text \<open>
  \<^bold>\<open>C6\<close>, amended. Listing strips the configured prefix joined with the listed one:
  for every configured prefix and on both adapters, after storing at \<open>test/hello.txt\<close>,
  \<^verbatim>\<open>GetObjects\<close> under \<open>test/\<close> returns an Object whose path is exactly \<open>hello.txt\<close>,
  with an empty content.
\<close>

theorem listing_strips_joined_prefix:
  "(\<exists>rest \<sigma>'.
      S3_GetObjects (kv_S3Backend bucket pfx) ''test/''
        (snd (S3_PutObject (kv_S3Backend bucket pfx) ''test/hello.txt'' c \<sigma>)) =
      Some (Inr (\<lparr>Meta = \<lparr>Name = [], Version = []\<rparr>, Path = ''hello.txt'', Content = [],
                  LastModified = clock \<sigma>\<rparr> # rest, None), \<sigma>'))
   \<and> (\<exists>rest \<tau>'.
      GCS_GetObjects (kv_GCSBackend pfx) ''test/''
        (snd (GCS_PutObject (kv_GCSBackend pfx) ''test/hello.txt'' c \<tau>)) =
      Some ((\<lparr>Meta = \<lparr>Name = [], Version = []\<rparr>, Path = ''hello.txt'', Content = [],
              LastModified = g_clock \<tau>\<rparr> # rest, None), \<tau>'))"
proof -
  define F where "F = path_Join [pfx, ''test/'']"
  have K: "path_Join [pfx, ''test/hello.txt''] = F @ ''/hello.txt''" and F: "F \<noteq> []"
    using path_Join_listing [of pfx] by (simp_all add: F_def del: path_Join.simps)
  have strip: "removePrefixFromObjectPath F (F @ ''/hello.txt'') = ''hello.txt''"
    using removePrefix_leading [OF F, of "''hello.txt''"] by simp
  show ?thesis
  proof (intro conjI)
    show "\<exists>rest \<sigma>'.
      S3_GetObjects (kv_S3Backend bucket pfx) ''test/''
        (snd (S3_PutObject (kv_S3Backend bucket pfx) ''test/hello.txt'' c \<sigma>)) =
      Some (Inr (\<lparr>Meta = \<lparr>Name = [], Version = []\<rparr>, Path = ''hello.txt'', Content = [],
                  LastModified = clock \<sigma>\<rparr> # rest, None), \<sigma>')"
      using strip
      by (simp add: S3_GetObjects_def Let_def kv_S3_PutObject kv_S3Backend_fields
            kv_S3_GetObjects_loop Objects_of_Contents_def K F_def [symmetric]
            del: path_Join.simps)
  next
    show "\<exists>rest \<tau>'.
      GCS_GetObjects (kv_GCSBackend pfx) ''test/''
        (snd (GCS_PutObject (kv_GCSBackend pfx) ''test/hello.txt'' c \<tau>)) =
      Some ((\<lparr>Meta = \<lparr>Name = [], Version = []\<rparr>, Path = ''hello.txt'', Content = [],
              LastModified = g_clock \<tau>\<rparr> # rest, None), \<tau>')"
      using strip
      by (simp add: GCS_GetObjects_def Let_def kv_GCS_PutObject kv_GCSBackend_fields
            kv_GCS_drain Objects_of_Attrs_def K F_def [symmetric]
            del: path_Join.simps)
  qed
qed

end
